theory Spec2Isabelle
  imports Main "HOL-Library.Word"
begin

unbundle bit_operations_syntax

section \<open>Go values shared by the two packages\<close>

text \<open>
  A Go call either returns or panics. \<open>Panic\<close> stands for a run-time panic
  (a slice or index expression out of range); \<open>Return\<close> carries what the call
  returns together with everything it has mutated.
\<close>

datatype 'a exec = Panic | Return 'a

type_synonym byte = "8 word"

text \<open>
  Go's \<open>int\<close> is a 64-bit two's complement integer on the platforms the decoder
  runs on. Values are represented by the mathematical integers of that range, and
  \<open>int_add\<close> is Go's \<open>+\<close> on \<open>int\<close>: the sum is wrapped into the range.
\<close>

definition in_int :: "int \<Rightarrow> bool" where
  "in_int x \<longleftrightarrow> - (2 ^ 63) \<le> x \<and> x < 2 ^ 63"

definition int_wrap :: "int \<Rightarrow> int" where
  "int_wrap x = (x + 2 ^ 63) mod 2 ^ 64 - 2 ^ 63"

definition int_add :: "int \<Rightarrow> int \<Rightarrow> int" where
  "int_add a b = int_wrap (a + b)"

section \<open>Package bufferdecoder\<close>

subsection \<open>Errors\<close>

text \<open>
  \<open>ErrBufferTooShort\<close> is the struct of the same name (expected, got, typeName).
  The other constructors are the messages built with \<open>errfmt.Errorf\<close>, kept
  structured: the format arguments are the constructor arguments.
\<close>

datatype decode_error =
    ErrBufferTooShort (expected: int) (got: int) (typeName: string)
  | ErrContextSize int int
  | ErrArrayLength decode_error
  | ErrArrayElement int decode_error

subsection \<open>The decoder and its slices\<close>

record EbpfDecoder =
  buffer :: "byte list"
  cursor :: int

text \<open>
  \<open>b[lo:]\<close> panics unless \<open>0 \<le> lo \<le> len(b)\<close>. \<open>b[lo:hi]\<close> is only
  evaluated by the decoders after their length check has established
  \<open>0 \<le> lo \<le> hi \<le> len(b)\<close>, where it denotes the bytes from \<open>lo\<close> up to
  \<open>hi\<close>; \<open>b[i]\<close> panics unless \<open>0 \<le> i < len(b)\<close>.
\<close>

definition slice_from :: "'a list \<Rightarrow> int \<Rightarrow> 'a list exec" where
  "slice_from b lo =
     (if 0 \<le> lo \<and> lo \<le> int (length b) then Return (drop (nat lo) b) else Panic)"

definition slice :: "'a list \<Rightarrow> int \<Rightarrow> int \<Rightarrow> 'a list" where
  "slice b lo hi = take (nat (hi - lo)) (drop (nat lo) b)"

definition index :: "'a list \<Rightarrow> int \<Rightarrow> 'a exec" where
  "index b i = (if 0 \<le> i \<and> i < int (length b) then Return (b ! nat i) else Panic)"

text \<open>
  \<open>encoding/binary\<close>: \<open>LittleEndian.Uint16(b)\<close> is \<open>uint16(b[0]) | uint16(b[1])<<8\<close>,
  and so on for the wider and the big-endian readers.
\<close>

definition LittleEndian_Uint16 :: "byte list \<Rightarrow> 16 word" where
  "LittleEndian_Uint16 b = ucast (b ! 0) OR push_bit 8 (ucast (b ! 1))"

definition BigEndian_Uint16 :: "byte list \<Rightarrow> 16 word" where
  "BigEndian_Uint16 b = ucast (b ! 1) OR push_bit 8 (ucast (b ! 0))"

definition LittleEndian_Uint32 :: "byte list \<Rightarrow> 32 word" where
  "LittleEndian_Uint32 b =
     ucast (b ! 0) OR push_bit 8 (ucast (b ! 1)) OR push_bit 16 (ucast (b ! 2))
       OR push_bit 24 (ucast (b ! 3))"

definition BigEndian_Uint32 :: "byte list \<Rightarrow> 32 word" where
  "BigEndian_Uint32 b =
     ucast (b ! 3) OR push_bit 8 (ucast (b ! 2)) OR push_bit 16 (ucast (b ! 1))
       OR push_bit 24 (ucast (b ! 0))"

definition LittleEndian_Uint64 :: "byte list \<Rightarrow> 64 word" where
  "LittleEndian_Uint64 b =
     ucast (b ! 0) OR push_bit 8 (ucast (b ! 1)) OR push_bit 16 (ucast (b ! 2))
       OR push_bit 24 (ucast (b ! 3)) OR push_bit 32 (ucast (b ! 4))
       OR push_bit 40 (ucast (b ! 5)) OR push_bit 48 (ucast (b ! 6))
       OR push_bit 56 (ucast (b ! 7))"

definition makeBufferTooShortError :: "EbpfDecoder \<Rightarrow> string \<Rightarrow> int \<Rightarrow> decode_error exec" where
  "makeBufferTooShortError decoder tn exp =
     (case slice_from (buffer decoder) (cursor decoder) of
        Panic \<Rightarrow> Panic
      | Return rest \<Rightarrow> Return (ErrBufferTooShort exp (int (length rest)) tn))"

definition MoveCursor :: "EbpfDecoder \<Rightarrow> int \<Rightarrow> EbpfDecoder \<times> int" where
  "MoveCursor decoder n =
     (if int_add (cursor decoder) n > int (length (buffer decoder))
      then (decoder, cursor decoder)
      else (let decoder' = decoder\<lparr>cursor := int_add (cursor decoder) n\<rparr>
            in (decoder', cursor decoder')))"

subsection \<open>Fixed-width decoders\<close>

text \<open>
  Each decoder mutates the decoder and the destination \<open>*msg\<close>; the model
  returns both, with the error (\<open>None\<close> is Go's \<open>nil\<close>). The signed
  destinations \<open>int8\<close> .. \<open>int64\<close> are words of the same width, read with
  \<open>sint\<close>: Go's conversions \<open>int8(x)\<close> .. \<open>int64(x)\<close> keep the bits.
  \<open>decoder.cursor += readAmount\<close> is only reached after the length check, where
  the sum is at most \<open>len(decoder.buffer)\<close> and does not wrap.
\<close>

definition DecodeUint8 :: "EbpfDecoder \<Rightarrow> 8 word \<Rightarrow> (EbpfDecoder \<times> 8 word \<times> decode_error option) exec" where
  "DecodeUint8 decoder msg =
     (let readAmount = 1; offset = cursor decoder in
      case slice_from (buffer decoder) offset of
        Panic \<Rightarrow> Panic
      | Return rest \<Rightarrow>
          if int (length rest) < readAmount
          then (case makeBufferTooShortError decoder ''uint8'' readAmount of
                  Panic \<Rightarrow> Panic
                | Return e \<Rightarrow> Return (decoder, msg, Some e))
          else (case index (buffer decoder) (cursor decoder) of
                  Panic \<Rightarrow> Panic
                | Return v \<Rightarrow>
                    Return (decoder\<lparr>cursor := cursor decoder + readAmount\<rparr>, v, None)))"

definition DecodeInt8 :: "EbpfDecoder \<Rightarrow> 8 word \<Rightarrow> (EbpfDecoder \<times> 8 word \<times> decode_error option) exec" where
  "DecodeInt8 decoder msg =
     (let readAmount = 1; offset = cursor decoder in
      case slice_from (buffer decoder) offset of
        Panic \<Rightarrow> Panic
      | Return rest \<Rightarrow>
          if int (length rest) < readAmount
          then (case makeBufferTooShortError decoder ''int8'' readAmount of
                  Panic \<Rightarrow> Panic
                | Return e \<Rightarrow> Return (decoder, msg, Some e))
          else (case index (buffer decoder) offset of
                  Panic \<Rightarrow> Panic
                | Return v \<Rightarrow>
                    Return (decoder\<lparr>cursor := cursor decoder + readAmount\<rparr>, v, None)))"

definition DecodeUint16 :: "EbpfDecoder \<Rightarrow> 16 word \<Rightarrow> (EbpfDecoder \<times> 16 word \<times> decode_error option) exec" where
  "DecodeUint16 decoder msg =
     (let readAmount = 2; offset = cursor decoder in
      case slice_from (buffer decoder) offset of
        Panic \<Rightarrow> Panic
      | Return rest \<Rightarrow>
          if int (length rest) < readAmount
          then (case makeBufferTooShortError decoder ''uint16'' readAmount of
                  Panic \<Rightarrow> Panic
                | Return e \<Rightarrow> Return (decoder, msg, Some e))
          else Return (decoder\<lparr>cursor := cursor decoder + readAmount\<rparr>,
                  LittleEndian_Uint16 (slice (buffer decoder) offset (offset + readAmount)), None))"

definition DecodeUint16BigEndian :: "EbpfDecoder \<Rightarrow> 16 word \<Rightarrow> (EbpfDecoder \<times> 16 word \<times> decode_error option) exec" where
  "DecodeUint16BigEndian decoder msg =
     (let readAmount = 2; offset = cursor decoder in
      case slice_from (buffer decoder) offset of
        Panic \<Rightarrow> Panic
      | Return rest \<Rightarrow>
          if int (length rest) < readAmount
          then (case makeBufferTooShortError decoder ''uint16'' readAmount of
                  Panic \<Rightarrow> Panic
                | Return e \<Rightarrow> Return (decoder, msg, Some e))
          else Return (decoder\<lparr>cursor := cursor decoder + readAmount\<rparr>,
                  BigEndian_Uint16 (slice (buffer decoder) offset (offset + readAmount)), None))"

definition DecodeInt16 :: "EbpfDecoder \<Rightarrow> 16 word \<Rightarrow> (EbpfDecoder \<times> 16 word \<times> decode_error option) exec" where
  "DecodeInt16 decoder msg =
     (let readAmount = 2; offset = cursor decoder in
      case slice_from (buffer decoder) offset of
        Panic \<Rightarrow> Panic
      | Return rest \<Rightarrow>
          if int (length rest) < readAmount
          then (case makeBufferTooShortError decoder ''int16'' readAmount of
                  Panic \<Rightarrow> Panic
                | Return e \<Rightarrow> Return (decoder, msg, Some e))
          else Return (decoder\<lparr>cursor := cursor decoder + readAmount\<rparr>,
                  LittleEndian_Uint16 (slice (buffer decoder) offset (offset + readAmount)), None))"

definition DecodeUint32 :: "EbpfDecoder \<Rightarrow> 32 word \<Rightarrow> (EbpfDecoder \<times> 32 word \<times> decode_error option) exec" where
  "DecodeUint32 decoder msg =
     (let readAmount = 4; offset = cursor decoder in
      case slice_from (buffer decoder) offset of
        Panic \<Rightarrow> Panic
      | Return rest \<Rightarrow>
          if int (length rest) < readAmount
          then (case makeBufferTooShortError decoder ''uint32'' readAmount of
                  Panic \<Rightarrow> Panic
                | Return e \<Rightarrow> Return (decoder, msg, Some e))
          else Return (decoder\<lparr>cursor := cursor decoder + readAmount\<rparr>,
                  LittleEndian_Uint32 (slice (buffer decoder) offset (offset + readAmount)), None))"

definition DecodeUint32BigEndian :: "EbpfDecoder \<Rightarrow> 32 word \<Rightarrow> (EbpfDecoder \<times> 32 word \<times> decode_error option) exec" where
  "DecodeUint32BigEndian decoder msg =
     (let readAmount = 4; offset = cursor decoder in
      case slice_from (buffer decoder) offset of
        Panic \<Rightarrow> Panic
      | Return rest \<Rightarrow>
          if int (length rest) < readAmount
          then (case makeBufferTooShortError decoder ''uint32 (big endian)'' readAmount of
                  Panic \<Rightarrow> Panic
                | Return e \<Rightarrow> Return (decoder, msg, Some e))
          else Return (decoder\<lparr>cursor := cursor decoder + readAmount\<rparr>,
                  BigEndian_Uint32 (slice (buffer decoder) offset (offset + readAmount)), None))"

definition DecodeInt32 :: "EbpfDecoder \<Rightarrow> 32 word \<Rightarrow> (EbpfDecoder \<times> 32 word \<times> decode_error option) exec" where
  "DecodeInt32 decoder msg =
     (let readAmount = 4; offset = cursor decoder in
      case slice_from (buffer decoder) offset of
        Panic \<Rightarrow> Panic
      | Return rest \<Rightarrow>
          if int (length rest) < readAmount
          then (case makeBufferTooShortError decoder ''int32'' readAmount of
                  Panic \<Rightarrow> Panic
                | Return e \<Rightarrow> Return (decoder, msg, Some e))
          else Return (decoder\<lparr>cursor := cursor decoder + readAmount\<rparr>,
                  LittleEndian_Uint32 (slice (buffer decoder) offset (offset + readAmount)), None))"

definition DecodeUint64 :: "EbpfDecoder \<Rightarrow> 64 word \<Rightarrow> (EbpfDecoder \<times> 64 word \<times> decode_error option) exec" where
  "DecodeUint64 decoder msg =
     (let readAmount = 8; offset = cursor decoder in
      case slice_from (buffer decoder) offset of
        Panic \<Rightarrow> Panic
      | Return rest \<Rightarrow>
          if int (length rest) < readAmount
          then (case makeBufferTooShortError decoder ''uint64'' readAmount of
                  Panic \<Rightarrow> Panic
                | Return e \<Rightarrow> Return (decoder, msg, Some e))
          else Return (decoder\<lparr>cursor := cursor decoder + readAmount\<rparr>,
                  LittleEndian_Uint64 (slice (buffer decoder) offset (offset + readAmount)), None))"

definition DecodeInt64 :: "EbpfDecoder \<Rightarrow> 64 word \<Rightarrow> (EbpfDecoder \<times> 64 word \<times> decode_error option) exec" where
  "DecodeInt64 decoder msg =
     (let readAmount = 8; offset = cursor decoder in
      case slice_from (buffer decoder) offset of
        Panic \<Rightarrow> Panic
      | Return rest \<Rightarrow>
          if int (length rest) < readAmount
          then (case makeBufferTooShortError decoder ''int64'' readAmount of
                  Panic \<Rightarrow> Panic
                | Return e \<Rightarrow> Return (decoder, msg, Some e))
          else Return (decoder\<lparr>cursor := cursor decoder + readAmount\<rparr>,
                  LittleEndian_Uint64
                    (slice (buffer decoder) (cursor decoder) (cursor decoder + readAmount)), None))"

definition DecodeBool :: "EbpfDecoder \<Rightarrow> bool \<Rightarrow> (EbpfDecoder \<times> bool \<times> decode_error option) exec" where
  "DecodeBool decoder msg =
     (let offset = cursor decoder in
      case slice_from (buffer decoder) offset of
        Panic \<Rightarrow> Panic
      | Return rest \<Rightarrow>
          if int (length rest) < 1
          then (case makeBufferTooShortError decoder ''bool'' 1 of
                  Panic \<Rightarrow> Panic
                | Return e \<Rightarrow> Return (decoder, msg, Some e))
          else (case index (buffer decoder) offset of
                  Panic \<Rightarrow> Panic
                | Return v \<Rightarrow> Return (decoder\<lparr>cursor := cursor decoder + 1\<rparr>, v \<noteq> 0, None)))"

subsection \<open>The event context header\<close>

text \<open>
  The struct \<open>EventContext\<close> is declared outside the files at hand; its fields
  are the ones \<open>DecodeContext\<close> assigns, with the types of the values assigned.
  \<open>Comm\<close> and \<open>UtsName\<close> are byte arrays, \<open>EventID\<close>, \<open>Syscall\<close> and
  \<open>Retval\<close> are the signed \<open>events.ID\<close> (an \<open>int32\<close>), \<open>int32\<close> and
  \<open>int64\<close>.
\<close>

record EventContext =
  Ts :: "64 word"
  StartTime :: "64 word"
  CgroupID :: "64 word"
  Pid :: "32 word"
  Tid :: "32 word"
  Ppid :: "32 word"
  HostPid :: "32 word"
  HostTid :: "32 word"
  HostPpid :: "32 word"
  Uid :: "32 word"
  MntID :: "32 word"
  PidID :: "32 word"
  Comm :: "byte list"
  UtsName :: "byte list"
  Flags :: "32 word"
  LeaderStartTime :: "64 word"
  ParentStartTime :: "64 word"
  EventID :: "32 word"
  Syscall :: "32 word"
  Retval :: "64 word"
  StackID :: "32 word"
  ProcessorId :: "16 word"
  PoliciesVersion :: "16 word"
  MatchedPolicies :: "64 word"

text \<open>
  Modelled from the spec: \<open>EventContext.GetSizeBytes\<close> is declared with the struct,
  outside the files at hand. The header has a total fixed size of 144 bytes.
\<close>

definition GetSizeBytes :: "EventContext \<Rightarrow> int" where
  "GetSizeBytes eCtx = 144"

text \<open>The builtin \<open>copy(dst, src)\<close> overwrites the first \<open>min(len(dst), len(src))\<close> elements.\<close>

definition copy :: "'a list \<Rightarrow> 'a list \<Rightarrow> 'a list" where
  "copy dst src =
     (let n = min (length dst) (length src) in take n src @ drop n dst)"

definition DecodeContext :: "EbpfDecoder \<Rightarrow> EventContext \<Rightarrow> (EbpfDecoder \<times> EventContext \<times> decode_error option) exec" where
  "DecodeContext decoder eCtx =
     (let offset = cursor decoder in
      case slice_from (buffer decoder) offset of
        Panic \<Rightarrow> Panic
      | Return rest \<Rightarrow>
          if int (length rest) < GetSizeBytes eCtx
          then Return (decoder, eCtx,
                 Some (ErrContextSize (int (length rest)) (GetSizeBytes eCtx)))
          else
            Return (decoder\<lparr>cursor := cursor decoder + GetSizeBytes eCtx\<rparr>,
              eCtx\<lparr>
                Ts := LittleEndian_Uint64 (slice (buffer decoder) offset (offset + 8)),
                StartTime := LittleEndian_Uint64 (slice (buffer decoder) (offset + 8) (offset + 16)),
                CgroupID := LittleEndian_Uint64 (slice (buffer decoder) (offset + 16) (offset + 24)),
                Pid := LittleEndian_Uint32 (slice (buffer decoder) (offset + 24) (offset + 28)),
                Tid := LittleEndian_Uint32 (slice (buffer decoder) (offset + 28) (offset + 32)),
                Ppid := LittleEndian_Uint32 (slice (buffer decoder) (offset + 32) (offset + 36)),
                HostPid := LittleEndian_Uint32 (slice (buffer decoder) (offset + 36) (offset + 40)),
                HostTid := LittleEndian_Uint32 (slice (buffer decoder) (offset + 40) (offset + 44)),
                HostPpid := LittleEndian_Uint32 (slice (buffer decoder) (offset + 44) (offset + 48)),
                Uid := LittleEndian_Uint32 (slice (buffer decoder) (offset + 48) (offset + 52)),
                MntID := LittleEndian_Uint32 (slice (buffer decoder) (offset + 52) (offset + 56)),
                PidID := LittleEndian_Uint32 (slice (buffer decoder) (offset + 56) (offset + 60)),
                Comm := copy (Comm eCtx) (slice (buffer decoder) (offset + 60) (offset + 76)),
                UtsName := copy (UtsName eCtx) (slice (buffer decoder) (offset + 76) (offset + 92)),
                Flags := LittleEndian_Uint32 (slice (buffer decoder) (offset + 92) (offset + 96)),
                LeaderStartTime := LittleEndian_Uint64 (slice (buffer decoder) (offset + 96) (offset + 104)),
                ParentStartTime := LittleEndian_Uint64 (slice (buffer decoder) (offset + 104) (offset + 112)),
                EventID := LittleEndian_Uint32 (slice (buffer decoder) (offset + 112) (offset + 116)),
                Syscall := LittleEndian_Uint32 (slice (buffer decoder) (offset + 116) (offset + 120)),
                Retval := LittleEndian_Uint64 (slice (buffer decoder) (offset + 120) (offset + 128)),
                StackID := LittleEndian_Uint32 (slice (buffer decoder) (offset + 128) (offset + 132)),
                ProcessorId := LittleEndian_Uint16 (slice (buffer decoder) (offset + 132) (offset + 134)),
                PoliciesVersion := LittleEndian_Uint16 (slice (buffer decoder) (offset + 134) (offset + 136)),
                MatchedPolicies := LittleEndian_Uint64 (slice (buffer decoder) (offset + 136) (offset + 144))\<rparr>,
              None))"

subsection \<open>The length-prefixed array of uint64\<close>

function DecodeUint64Array_loop ::
  "int \<Rightarrow> int \<Rightarrow> EbpfDecoder \<Rightarrow> 64 word list \<Rightarrow> (EbpfDecoder \<times> 64 word list \<times> decode_error option) exec" where
  "DecodeUint64Array_loop i arrLen decoder msg =
     (if i < arrLen
      then (case DecodeUint64 decoder 0 of
              Panic \<Rightarrow> Panic
            | Return (decoder', element, Some err) \<Rightarrow>
                Return (decoder', msg, Some (ErrArrayElement i err))
            | Return (decoder', element, None) \<Rightarrow>
                DecodeUint64Array_loop (i + 1) arrLen decoder' (msg @ [element]))
      else Return (decoder, msg, None))"
  by pat_completeness auto
termination
  by (relation "measure (\<lambda>(i, arrLen, decoder, msg). nat (arrLen - i))") auto

declare DecodeUint64Array_loop.simps [simp del]

definition DecodeUint64Array :: "EbpfDecoder \<Rightarrow> 64 word list \<Rightarrow> (EbpfDecoder \<times> 64 word list \<times> decode_error option) exec" where
  "DecodeUint64Array decoder msg =
     (case DecodeUint16 decoder 0 of
        Panic \<Rightarrow> Panic
      | Return (decoder', arrLen, Some err) \<Rightarrow> Return (decoder', msg, Some (ErrArrayLength err))
      | Return (decoder', arrLen, None) \<Rightarrow> DecodeUint64Array_loop 0 (uint arrLen) decoder' msg)"

section \<open>Types of the packages trace and events\<close>

text \<open>
  The packages \<open>trace\<close> and \<open>events\<close> are outside the files at hand. The
  records below hold the fields that the decoder, the derivation engine and their tests
  use; every other field of a struct is the extension part of its record, so a
  statement about an \<open>Event_scheme\<close> covers the fields not listed here as well.
  An \<open>interface{}\<close> value is an option: \<open>None\<close> is \<open>nil\<close>.
  \<open>events.ID\<close> is an \<open>int32\<close>, a 32-bit word read with \<open>sint\<close>.
\<close>

type_synonym ID = "32 word"

record ArgMeta =
  Name :: string
  Type :: string

record 'v Argument =
  ArgMeta :: ArgMeta
  Value :: "'v option"

record 'v DataField =
  ArgMeta :: ArgMeta
  Zero :: "'v option"

record 'v Definition =
  GetName :: string
  GetFields :: "'v DataField list"

text \<open>
  A slice that the pipeline shares between events is a reference into a store of backing
  arrays: the address of its array, or \<open>None\<close> for the \<open>nil\<close> slice. The store is
  the list of the arrays allocated so far, and \<open>make_slice\<close> (the builtin
  \<open>make\<close> at type \<open>[]string\<close>) allocates at its end. The
  slices that \<open>buildDerivedEvent\<close> creates afresh and never shares (\<open>Args\<close>,
  \<open>StackAddresses\<close>) are plain lists.
\<close>

type_synonym addr = nat
type_synonym heap = "string list list"

record 'v Event =
  Timestamp :: int
  ProcessorID :: int
  ProcessID :: int
  CgroupID :: int
  ThreadID :: int
  ParentProcessID :: int
  HostProcessID :: int
  HostThreadID :: int
  HostParentProcessID :: int
  UserID :: int
  MountNS :: int
  PIDNS :: int
  ProcessName :: string
  HostName :: string
  EventID :: int
  EventName :: string
  PoliciesVersion :: int
  ArgsNum :: int
  ReturnValue :: int
  StackAddresses :: "64 word list"
  Args :: "'v Argument list"
  MatchedPolicies :: "addr option"

definition make_slice :: "heap \<Rightarrow> nat \<Rightarrow> heap \<times> addr" where
  "make_slice h n = (h @ [replicate n []], length h)"

subsection \<open>Assembling the arguments of a decoded event\<close>

text \<open>
  \<open>readArgFromBuff\<close> is outside the files at hand: \<open>DecodeArguments\<close> takes it as
  a parameter. It advances the decoder and returns the schema index, the argument and an
  error. The two \<open>logger\<close> calls append to a log.
\<close>

type_synonym ('v, 'e) readArg =
  "ID \<Rightarrow> EbpfDecoder \<Rightarrow> 'v DataField list \<Rightarrow> EbpfDecoder \<times> nat \<times> 'v Argument \<times> 'e option"

datatype ('v, 'e) log_entry =
    Errorw int string 'e
  | Warnw string string "'v option" "'v option"

function DecodeArguments_read ::
  "('v, 'e) readArg \<Rightarrow> int \<Rightarrow> int \<Rightarrow> EbpfDecoder \<Rightarrow> 'v Argument list \<Rightarrow> 'v DataField list \<Rightarrow> string \<Rightarrow> ID
     \<Rightarrow> ('v, 'e) log_entry list \<Rightarrow> (EbpfDecoder \<times> 'v Argument list \<times> ('v, 'e) log_entry list) exec" where
  "DecodeArguments_read readArgFromBuff i argnum decoder args evtFields evtName eventId log =
     (if i < argnum
      then (case readArgFromBuff eventId decoder evtFields of
              (decoder', idx, arg, Some err) \<Rightarrow>
                DecodeArguments_read readArgFromBuff (i + 1) argnum decoder' args evtFields
                  evtName eventId (log @ [Errorw i evtName err])
            | (decoder', idx, arg, None) \<Rightarrow>
                (case index args (int idx) of
                   Panic \<Rightarrow> Panic
                 | Return saved \<Rightarrow>
                     DecodeArguments_read readArgFromBuff (i + 1) argnum decoder'
                       (args[idx := arg]) evtFields evtName eventId
                       (if Value saved \<noteq> None
                        then log @ [Warnw (Name (Argument.ArgMeta arg)) evtName
                                      (Value saved) (Value arg)]
                        else log)))
      else Return (decoder, args, log))"
  by pat_completeness auto
termination
  by (relation "measure (\<lambda>(r, i, argnum, rest). nat (argnum - i))") auto

declare DecodeArguments_read.simps [simp del]

function DecodeArguments_fill ::
  "int \<Rightarrow> 'v DataField list \<Rightarrow> 'v Argument list \<Rightarrow> 'v Argument list exec" where
  "DecodeArguments_fill i evtFields args =
     (if i < int (length evtFields)
      then (case index args i of
              Panic \<Rightarrow> Panic
            | Return a \<Rightarrow>
                if Value a = None
                then DecodeArguments_fill (i + 1) evtFields
                       (args[nat i := a\<lparr>Argument.ArgMeta := DataField.ArgMeta (evtFields ! nat i),
                                         Value := Zero (evtFields ! nat i)\<rparr>])
                else DecodeArguments_fill (i + 1) evtFields args)
      else Return args)"
  by pat_completeness auto
termination
  by (relation "measure (\<lambda>(i, evtFields, args). nat (int (length evtFields) - i))") auto

declare DecodeArguments_fill.simps [simp del]

definition DecodeArguments ::
  "('v, 'e) readArg \<Rightarrow> EbpfDecoder \<Rightarrow> 'v Argument list \<Rightarrow> int \<Rightarrow> 'v DataField list \<Rightarrow> string \<Rightarrow> ID
     \<Rightarrow> (EbpfDecoder \<times> 'v Argument list \<times> ('v, 'e) log_entry list \<times> decode_error option) exec" where
  "DecodeArguments readArgFromBuff decoder args argnum evtFields evtName eventId =
     (case DecodeArguments_read readArgFromBuff 0 argnum decoder args evtFields evtName eventId [] of
        Panic \<Rightarrow> Panic
      | Return (decoder', args', log) \<Rightarrow>
          (case DecodeArguments_fill 0 evtFields args' of
             Panic \<Rightarrow> Panic
           | Return args'' \<Rightarrow> Return (decoder', args'', log, None)))"

section \<open>Package derive\<close>

text \<open>
  The three error constructors of the package are outside the files at hand; each is
  kept as a constructor of its arguments. \<open>errors_New\<close> is an error of a rule.
\<close>

datatype derive_error =
    alreadyRegisteredError ID ID
  | deriveError ID derive_error
  | unexpectedArgCountError string int int
  | errors_New string

text \<open>
  A \<open>DeriveFunction\<close> receives the event and may allocate, so it takes the store and
  returns it. \<open>Enabled\<close> is a function without arguments, called on every derivation.
\<close>

type_synonym ('v, 'z) DeriveFunction =
  "('v, 'z) Event_scheme \<Rightarrow> heap \<Rightarrow> ('v, 'z) Event_scheme list \<times> derive_error list \<times> heap"

record ('v, 'z) rule =
  DeriveFunction :: "('v, 'z) DeriveFunction"
  Enabled :: "unit \<Rightarrow> bool"

type_synonym ('v, 'z) Table = "ID \<rightharpoonup> (ID \<rightharpoonup> ('v, 'z) rule)"

definition Register ::
  "('v, 'z) Table \<Rightarrow> ID \<Rightarrow> ID \<Rightarrow> (unit \<Rightarrow> bool) \<Rightarrow> ('v, 'z) DeriveFunction
     \<Rightarrow> ('v, 'z) Table \<times> derive_error option" where
  "Register t deriveFrom deriveTo deriveCondition deriveLogic =
     (let t = (if t deriveFrom = None then t(deriveFrom \<mapsto> Map.empty) else t) in
      case t deriveFrom of
        None \<Rightarrow> (t, None)
      | Some m \<Rightarrow>
          (case m deriveTo of
             Some ok \<Rightarrow> (t, Some (alreadyRegisteredError deriveFrom deriveTo))
           | None \<Rightarrow>
               (t(deriveFrom \<mapsto>
                    m(deriveTo \<mapsto> \<lparr>DeriveFunction = deriveLogic, Enabled = deriveCondition\<rparr>)),
                None)))"

text \<open>
  \<open>range\<close> over a map visits every key once, in an order the runtime chooses:
  \<open>DeriveEvent\<close> takes that order as the list \<open>order\<close> of the keys it visits.
\<close>

fun DeriveEvent_loop ::
  "(ID \<times> ('v, 'z) rule) list \<Rightarrow> ('v, 'z) Event_scheme \<Rightarrow> ('v, 'z) Event_scheme list
     \<Rightarrow> derive_error list \<Rightarrow> heap \<Rightarrow> ('v, 'z) Event_scheme list \<times> derive_error list \<times> heap" where
  "DeriveEvent_loop [] event derivatives errors h = (derivatives, errors, h)"
| "DeriveEvent_loop ((id', deriveFn) # rest) event derivatives errors h =
     (if Enabled deriveFn ()
      then (case DeriveFunction deriveFn event h of
              (derivative, errs, h') \<Rightarrow>
                DeriveEvent_loop rest event (derivatives @ derivative)
                  (errors @ map (deriveError id') errs) h')
      else DeriveEvent_loop rest event derivatives errors h)"

definition range_map :: "('k \<rightharpoonup> 'a) \<Rightarrow> 'k list \<Rightarrow> ('k \<times> 'a) list" where
  "range_map m order = List.map_filter (\<lambda>k. map_option (Pair k) (m k)) order"

definition DeriveEvent ::
  "('v, 'z) Table \<Rightarrow> ID list \<Rightarrow> ('v, 'z) Event_scheme \<Rightarrow> heap
     \<Rightarrow> ('v, 'z) Event_scheme list \<times> derive_error list \<times> heap" where
  "DeriveEvent t order event h =
     (let deriveFns = (case t (word_of_int (EventID event)) of None \<Rightarrow> Map.empty | Some m \<Rightarrow> m)
      in DeriveEvent_loop (range_map deriveFns order) event [] [] h)"

record 'v deriveBase =
  Name :: string
  ID :: int
  Fields :: "'v DataField list"

definition makeDeriveBase :: "(ID \<Rightarrow> 'v Definition) \<Rightarrow> ID \<Rightarrow> 'v deriveBase" where
  "makeDeriveBase getEventDefinition eventID =
     (let def = getEventDefinition eventID
      in \<lparr>Name = GetName def, ID = sint eventID, Fields = GetFields def\<rparr>)"

text \<open>The loop of \<open>buildDerivedEvent\<close> over \<open>argsValues\<close>, from index \<open>i\<close> on.\<close>

fun buildDerivedEvent_args ::
  "nat \<Rightarrow> 'v option list \<Rightarrow> 'v deriveBase \<Rightarrow> 'v Argument list \<Rightarrow> 'v Argument list" where
  "buildDerivedEvent_args i [] skeleton args = args"
| "buildDerivedEvent_args i (value # rest) skeleton args =
     buildDerivedEvent_args (Suc i) rest skeleton
       (args[i := \<lparr>Argument.ArgMeta = DataField.ArgMeta (Fields skeleton ! i), Value = value\<rparr>])"

definition buildDerivedEvent ::
  "('v, 'z) Event_scheme \<Rightarrow> 'v deriveBase \<Rightarrow> 'v option list \<Rightarrow> heap
     \<Rightarrow> (derive_error + ('v, 'z) Event_scheme) \<times> heap" where
  "buildDerivedEvent baseEvent skeleton argsValues h =
     (if length (Fields skeleton) \<noteq> length argsValues
      then (Inl (unexpectedArgCountError (deriveBase.Name skeleton)
                   (int (length (Fields skeleton))) (int (length argsValues))), h)
      else
        (let de = baseEvent;
             de = de\<lparr>PoliciesVersion := PoliciesVersion baseEvent\<rparr>;
             de = de\<lparr>EventID := deriveBase.ID skeleton\<rparr>;
             de = de\<lparr>EventName := deriveBase.Name skeleton\<rparr>;
             de = de\<lparr>ReturnValue := 0\<rparr>;
             de = de\<lparr>StackAddresses := replicate 1 0\<rparr>;
             de = de\<lparr>Args := replicate (length (Fields skeleton))
                               \<lparr>Argument.ArgMeta = \<lparr>ArgMeta.Name = [], Type = []\<rparr>, Value = None\<rparr>\<rparr>;
             de = de\<lparr>Args := buildDerivedEvent_args 0 argsValues skeleton (Args de)\<rparr>;
             de = de\<lparr>ArgsNum := int (length (Args de))\<rparr>
         in case MatchedPolicies baseEvent of
              None \<Rightarrow> (Inr de, h)
            | Some p \<Rightarrow>
                (let (h, q) = make_slice h (length (h ! p));
                     h = h[q := copy (h ! q) (h ! p)]
                 in (Inr (de\<lparr>MatchedPolicies := Some q\<rparr>), h))))"

fun deriveMultipleEvents_loop ::
  "'v option list list \<Rightarrow> ('v, 'z) Event_scheme \<Rightarrow> 'v deriveBase \<Rightarrow> ('v, 'z) Event_scheme list
     \<Rightarrow> derive_error list \<Rightarrow> heap \<Rightarrow> ('v, 'z) Event_scheme list \<times> derive_error list \<times> heap" where
  "deriveMultipleEvents_loop [] event skeleton derivedEvents errs h = (derivedEvents, errs, h)"
| "deriveMultipleEvents_loop (derivedArgs # rest) event skeleton derivedEvents errs h =
     (case buildDerivedEvent event skeleton derivedArgs h of
        (Inl err, h') \<Rightarrow>
          deriveMultipleEvents_loop rest event skeleton derivedEvents (errs @ [err]) h'
      | (Inr de, h') \<Rightarrow>
          deriveMultipleEvents_loop rest event skeleton (derivedEvents @ [de]) errs h')"

text \<open>
  A \<open>multiDeriveArgsFunction\<close> returns the argument tuples, \<open>None\<close> for the \<open>nil\<close>
  slice, and its errors.
\<close>

type_synonym ('v, 'z) multiDeriveArgsFunction =
  "('v, 'z) Event_scheme \<Rightarrow> 'v option list list option \<times> derive_error list"

definition deriveMultipleEvents ::
  "(ID \<Rightarrow> 'v Definition) \<Rightarrow> ID \<Rightarrow> ('v, 'z) multiDeriveArgsFunction \<Rightarrow> ('v, 'z) DeriveFunction" where
  "deriveMultipleEvents getEventDefinition id' multiDeriveArgsFunc =
     (let skeleton = makeDeriveBase getEventDefinition id'
      in (\<lambda>event h.
            case multiDeriveArgsFunc event of
              (None, errs) \<Rightarrow> ([], errs, h)
            | (Some multiArgs, errs) \<Rightarrow>
                deriveMultipleEvents_loop multiArgs event skeleton [] errs h))"

section \<open>Notions used in the statements\<close>

text \<open>
  The little-endian reading of a byte sequence is the number whose least significant
  byte comes first; the big-endian reading is that of the reversed sequence.
  \<open>le_word\<close> is the same reading computed on words, \<open>bytes_at b off w\<close> the
  \<open>w\<close> bytes of \<open>b\<close> from offset \<open>off\<close> on.
\<close>

fun le_nat :: "byte list \<Rightarrow> nat" where
  "le_nat [] = 0"
| "le_nat (b # bs) = unat b + 256 * le_nat bs"

definition be_nat :: "byte list \<Rightarrow> nat" where
  "be_nat bs = le_nat (rev bs)"

fun le_word :: "byte list \<Rightarrow> 'a::len word" where
  "le_word [] = 0"
| "le_word (b # bs) = ucast b OR push_bit 8 (le_word bs)"

definition bytes_at :: "byte list \<Rightarrow> int \<Rightarrow> nat \<Rightarrow> byte list" where
  "bytes_at b off w = take w (drop (nat off) b)"

text \<open>The little-endian word made of the \<open>w\<close> bytes of \<open>b\<close> at offset \<open>off\<close>.\<close>

definition le_at :: "byte list \<Rightarrow> int \<Rightarrow> nat \<Rightarrow> 'a::len word" where
  "le_at b off w = of_nat (le_nat (bytes_at b off w))"

text \<open>
  The zero value \<open>EventContext{}\<close>, and a header of 144 bytes in which the byte at
  offset \<open>i\<close> is \<open>i\<close>.
\<close>

definition zero_EventContext :: EventContext where
  "zero_EventContext =
     \<lparr>Ts = 0,
      StartTime = 0,
      CgroupID = 0,
      Pid = 0,
      Tid = 0,
      Ppid = 0,
      HostPid = 0,
      HostTid = 0,
      HostPpid = 0,
      Uid = 0,
      MntID = 0,
      PidID = 0,
      Comm = replicate 16 0,
      UtsName = replicate 16 0,
      Flags = 0,
      LeaderStartTime = 0,
      ParentStartTime = 0,
      EventID = 0,
      Syscall = 0,
      Retval = 0,
      StackID = 0,
      ProcessorId = 0,
      PoliciesVersion = 0,
      MatchedPolicies = 0\<rparr>"

definition sample_header :: "byte list" where
  "sample_header =
     [3, 10, 17, 24, 31, 38, 45, 52, 59, 66, 73, 80, 87, 94, 101, 108,
      115, 122, 129, 136, 143, 150, 157, 164, 171, 178, 185, 192, 199, 206, 213, 220,
      227, 234, 241, 248, 255, 6, 13, 20, 27, 34, 41, 48, 55, 62, 69, 76,
      83, 90, 97, 104, 111, 118, 125, 132, 139, 146, 153, 160, 167, 174, 181, 188,
      195, 202, 209, 216, 223, 230, 237, 244, 251, 2, 9, 16, 23, 30, 37, 44,
      51, 58, 65, 72, 79, 86, 93, 100, 107, 114, 121, 128, 135, 142, 149, 156,
      163, 170, 177, 184, 191, 198, 205, 212, 219, 226, 233, 240, 247, 254, 5, 12,
      19, 26, 33, 40, 47, 54, 61, 68, 75, 82, 89, 96, 103, 110, 117, 124,
      131, 138, 145, 152, 159, 166, 173, 180, 187, 194, 201, 208, 215, 222, 229, 236]"

text \<open>The \<open>m\<close> consecutive little-endian uint64 elements of \<open>b\<close> from offset \<open>off\<close> on.\<close>

fun uint64_elements :: "byte list \<Rightarrow> int \<Rightarrow> nat \<Rightarrow> 64 word list" where
  "uint64_elements b off 0 = []"
| "uint64_elements b off (Suc m) =
     of_nat (le_nat (bytes_at b off 8)) # uint64_elements b (off + 8) m"

text \<open>
  What the specification asks of a fixed-width decoder of width \<open>w\<close> and type name
  \<open>tn\<close> that would write \<open>v\<close>: with fewer than \<open>w\<close> bytes left, a
  \<open>BufferTooShort\<close> error of the expected width, the bytes left and the type name,
  decoder and destination as before; otherwise \<open>v\<close> written and the cursor advanced
  by \<open>w\<close>.
\<close>

definition fixed_width ::
  "EbpfDecoder \<Rightarrow> 'a \<Rightarrow> int \<Rightarrow> string \<Rightarrow> 'a \<Rightarrow> (EbpfDecoder \<times> 'a \<times> decode_error option) exec" where
  "fixed_width d msg w tn v =
     (if int (length (buffer d)) - cursor d < w
      then Return (d, msg, Some (ErrBufferTooShort w (int (length (buffer d)) - cursor d) tn))
      else Return (d\<lparr>cursor := cursor d + w\<rparr>, v, None))"

text \<open>
  A pair is registered when the table has a rule for it; \<open>rules_of\<close> are the rules
  registered under a source identifier.
\<close>

definition registered :: "('v, 'z) Table \<Rightarrow> ID \<Rightarrow> ID \<Rightarrow> bool" where
  "registered t deriveFrom deriveTo =
     (case t deriveFrom of None \<Rightarrow> False | Some m \<Rightarrow> m deriveTo \<noteq> None)"

definition rules_of :: "('v, 'z) Table \<Rightarrow> ID \<Rightarrow> (ID \<rightharpoonup> ('v, 'z) rule)" where
  "rules_of t deriveFrom = (case t deriveFrom of None \<Rightarrow> Map.empty | Some m \<Rightarrow> m)"

text \<open>Two rules of the tests: one derives nothing, one always fails.\<close>

definition no_derivation :: "(int, unit) DeriveFunction" where
  "no_derivation = (\<lambda>event h. ([], [], h))"

definition failing_derivation :: "(int, unit) DeriveFunction" where
  "failing_derivation = (\<lambda>event h. ([], [errors_New ''derive error''], h))"

text \<open>
  The event, the definition and the skeleton of the tests of the package
  (\<open>getTestEvent\<close>, \<open>eventDefinition\<close>, the skeleton of \<open>TestNewEvent\<close>), with
  integers for the argument values; the table of \<open>Test_DeriveEvent\<close> with its three
  rules (one fails, one derives an event, one derives nothing), and that table with the
  first two rules only.
\<close>

definition getTestEvent :: "int Event" where
  "getTestEvent =
     \<lparr>Timestamp = 100000, ProcessorID = 1, ProcessID = 13, CgroupID = 12345, ThreadID = 13,
      ParentProcessID = 12, HostProcessID = 13, HostThreadID = 13, HostParentProcessID = 12,
      UserID = 1, MountNS = 12345, PIDNS = 23456, ProcessName = ''test'', HostName = ''test'',
      EventID = 123, EventName = ''test_event'', PoliciesVersion = 0, ArgsNum = 1,
      ReturnValue = 1, StackAddresses = [4444],
      Args = [\<lparr>Argument.ArgMeta = \<lparr>ArgMeta.Name = ''test-arg'', Type = ''int''\<rparr>,
               Value = Some 1111\<rparr>],
      MatchedPolicies = None\<rparr>"

definition eventDefinition :: "int Definition" where
  "eventDefinition =
     \<lparr>GetName = ''test_event'',
      GetFields = [\<lparr>DataField.ArgMeta = \<lparr>ArgMeta.Name = ''arg1'', Type = ''int''\<rparr>, Zero = None\<rparr>,
                   \<lparr>DataField.ArgMeta = \<lparr>ArgMeta.Name = ''arg2'', Type = ''int''\<rparr>, Zero = None\<rparr>]\<rparr>"

definition skeleton_124 :: "int deriveBase" where
  "skeleton_124 =
     \<lparr>Name = ''test_derive'', ID = 124,
      Fields = [\<lparr>DataField.ArgMeta = \<lparr>ArgMeta.Name = ''arg1'', Type = ''int''\<rparr>, Zero = None\<rparr>,
                \<lparr>DataField.ArgMeta = \<lparr>ArgMeta.Name = ''arg2'', Type = ''string''\<rparr>, Zero = None\<rparr>]\<rparr>"

definition deriving_12 :: "(int, unit) DeriveFunction" where
  "deriving_12 = (\<lambda>event h. ([getTestEvent\<lparr>EventID := 12\<rparr>], [], h))"

definition mockDerivationTable :: "(int, unit) Table" where
  "mockDerivationTable =
     [1 \<mapsto> [11 \<mapsto> \<lparr>DeriveFunction = failing_derivation, Enabled = \<lambda>u. True\<rparr>,
            12 \<mapsto> \<lparr>DeriveFunction = deriving_12, Enabled = \<lambda>u. True\<rparr>,
            13 \<mapsto> \<lparr>DeriveFunction = no_derivation, Enabled = \<lambda>u. True\<rparr>]]"

definition two_rule_table :: "(int, unit) Table" where
  "two_rule_table =
     [1 \<mapsto> [11 \<mapsto> \<lparr>DeriveFunction = failing_derivation, Enabled = \<lambda>u. True\<rparr>,
            12 \<mapsto> \<lparr>DeriveFunction = deriving_12, Enabled = \<lambda>u. True\<rparr>]]"

text \<open>
  An argument function in the manner of \<open>illegalDeriveEventArgs\<close> of the tests, which
  returns a tuple of three values for the definition of two fields, here beside a tuple
  of two; a table with a rule made of it by \<open>deriveMultipleEvents\<close> beside a second
  rule; and the event that \<open>buildDerivedEvent\<close> makes of the test event, the test
  definition and two values.
\<close>

definition illegalDeriveEventArgs :: "(int, unit) multiDeriveArgsFunction" where
  "illegalDeriveEventArgs = (\<lambda>event. (Some [[Some 1, Some 2, Some 3], [Some 1, Some 2]], []))"

definition illegal_args_table :: "(int, unit) Table" where
  "illegal_args_table =
     [123 \<mapsto> [20 \<mapsto> \<lparr>DeriveFunction =
                       deriveMultipleEvents (\<lambda>i. eventDefinition) 0 illegalDeriveEventArgs,
                     Enabled = \<lambda>u. True\<rparr>,
              12 \<mapsto> \<lparr>DeriveFunction = deriving_12, Enabled = \<lambda>u. True\<rparr>]]"

definition derived_test_event :: "int \<Rightarrow> int \<Rightarrow> int Event" where
  "derived_test_event x y =
     getTestEvent\<lparr>EventID := 0, EventName := ''test_event'', ReturnValue := 0,
       StackAddresses := [0],
       Args := [\<lparr>Argument.ArgMeta = \<lparr>ArgMeta.Name = ''arg1'', Type = ''int''\<rparr>, Value = Some x\<rparr>,
                \<lparr>Argument.ArgMeta = \<lparr>ArgMeta.Name = ''arg2'', Type = ''int''\<rparr>, Value = Some y\<rparr>],
       ArgsNum := 2\<rparr>"

text \<open>
  The matched-policies list of an event in a store, \<open>None\<close> for the \<open>nil\<close> slice, and
  the assignment \<open>list[i] = s\<close> to the list at an address, which panics out of range.
\<close>

definition policies_of :: "heap \<Rightarrow> ('v, 'z) Event_scheme \<Rightarrow> string list option" where
  "policies_of h event = map_option (\<lambda>p. h ! p) (MatchedPolicies event)"

definition assign :: "heap \<Rightarrow> addr \<Rightarrow> nat \<Rightarrow> string \<Rightarrow> heap exec" where
  "assign h q i s = (if i < length (h ! q) then Return (h[q := (h ! q)[i := s]]) else Panic)"

text \<open>
  The \<open>n\<close> successive results of \<open>readArgFromBuff\<close> from a decoder on: what the
  stream supplies. \<open>place\<close> writes them to their indices, and \<open>zero_arg\<close> is the
  argument that fills a field absent from the stream.
\<close>

fun reads ::
  "('v, 'e) readArg \<Rightarrow> ID \<Rightarrow> 'v DataField list \<Rightarrow> EbpfDecoder \<Rightarrow> nat
     \<Rightarrow> (nat \<times> 'v Argument \<times> 'e option) list" where
  "reads readArgFromBuff eventId evtFields decoder 0 = []"
| "reads readArgFromBuff eventId evtFields decoder (Suc n) =
     (case readArgFromBuff eventId decoder evtFields of
        (decoder', idx, arg, err) \<Rightarrow>
          (idx, arg, err) # reads readArgFromBuff eventId evtFields decoder' n)"

definition place :: "'v Argument list \<Rightarrow> (nat \<times> 'v Argument \<times> 'e option) list \<Rightarrow> 'v Argument list" where
  "place args rs = foldl (\<lambda>a (idx, arg, err). a[idx := arg]) args rs"

definition zero_arg :: "'v DataField \<Rightarrow> 'v Argument" where
  "zero_arg f = \<lparr>Argument.ArgMeta = DataField.ArgMeta f, Value = Zero f\<rparr>"

text \<open>
  A stand-in for \<open>readArgFromBuff\<close> on which \<open>DecodeArguments\<close> can run: the byte
  under the cursor is the schema index, the argument has the metadata of that field and
  a value made of the index. With it a schema of three fields and an argument of an
  array made by \<open>make\<close>.
\<close>

definition readArg_stub :: "(int, string) readArg" where
  "readArg_stub eventId decoder evtFields =
     (let idx = unat (buffer decoder ! nat (cursor decoder))
      in (decoder\<lparr>cursor := cursor decoder + 1\<rparr>, idx,
          \<lparr>Argument.ArgMeta = DataField.ArgMeta (evtFields ! idx), Value = Some (int idx + 100)\<rparr>,
          None))"

definition three_fields :: "int DataField list" where
  "three_fields =
     [\<lparr>DataField.ArgMeta = \<lparr>ArgMeta.Name = ''fd'', Type = ''int''\<rparr>, Zero = Some 0\<rparr>,
      \<lparr>DataField.ArgMeta = \<lparr>ArgMeta.Name = ''flags'', Type = ''int''\<rparr>, Zero = Some 0\<rparr>,
      \<lparr>DataField.ArgMeta = \<lparr>ArgMeta.Name = ''mode'', Type = ''int''\<rparr>, Zero = Some 0\<rparr>]"

definition empty_Argument :: "'v Argument" where
  "empty_Argument = \<lparr>Argument.ArgMeta = \<lparr>ArgMeta.Name = [], Type = []\<rparr>, Value = None\<rparr>"

section \<open>Properties of the buffer decoder\<close>

subsection \<open>Arithmetic and slices\<close>

lemma int_add_in_range: "in_int (a + b) \<Longrightarrow> int_add a b = a + b"
  by (simp add: int_add_def int_wrap_def in_int_def)

lemma slice_from_valid:
  "0 \<le> c \<Longrightarrow> c \<le> int (length b) \<Longrightarrow> slice_from b c = Return (drop (nat c) b)"
  by (simp add: slice_from_def)

lemma slice_from_negative: "c < 0 \<Longrightarrow> slice_from b c = Panic"
  by (simp add: slice_from_def)

subsection \<open>Reading bytes as numbers\<close>

lemma le_nat_bound: "le_nat bs < 2 ^ (8 * length bs)"
proof (induction bs)
  case Nil
  show ?case by simp
next
  case (Cons b bs)
  have "unat b < 256" using unsigned_less [of b] by simp
  moreover have "le_nat bs + 1 \<le> 2 ^ (8 * length bs)" using Cons.IH by simp
  then have "256 * (le_nat bs + 1) \<le> 256 * 2 ^ (8 * length bs)" by (rule mult_le_mono2)
  ultimately show ?case by (simp add: power_add)
qed

lemma or_push_bit_add: "x < 2 ^ n \<Longrightarrow> (x::nat) OR push_bit n y = x + push_bit n y"
proof -
  assume "x < 2 ^ n"
  then have x: "take_bit n x = x" by (simp add: take_bit_nat_eq_self)
  have "take_bit n x AND push_bit n y = 0"
    by (simp add: bit_eq_iff bit_simps)
  then have "take_bit n x + push_bit n y = take_bit n x OR push_bit n y"
    by (rule disjunctive_add_eq_or)
  with x show ?thesis by simp
qed

lemma unat_le_word:
  "8 * length bs \<le> LENGTH('a::len) \<Longrightarrow> unat (le_word bs :: 'a word) = le_nat bs"
proof (induction bs)
  case Nil
  show ?case by simp
next
  case (Cons b bs)
  let ?w = "le_word bs :: 'a word"
  from Cons.prems have len: "8 + 8 * length bs \<le> LENGTH('a)" by simp
  then have IH: "unat ?w = le_nat bs" using Cons.IH by simp
  have b: "unat b < 2 ^ 8" using unsigned_less [of b] by simp
  have "(2::nat) ^ 8 \<le> 2 ^ LENGTH('a)" using len by (intro power_increasing) auto
  with b have b': "unat b < 2 ^ LENGTH('a)" by linarith
  have u: "unat (ucast b :: 'a word) = unat b"
    using b' by (simp add: unsigned_ucast_eq take_bit_nat_eq_self)
  have "push_bit 8 (le_nat bs) < 2 ^ (8 + 8 * length bs)"
    using le_nat_bound [of bs] by (simp add: push_bit_eq_mult power_add)
  also have "\<dots> \<le> 2 ^ LENGTH('a)" using len by (intro power_increasing) auto
  finally have p: "unat (push_bit 8 ?w) = push_bit 8 (le_nat bs)"
    by (simp add: unsigned_push_bit_eq IH take_bit_nat_eq_self)
  have "unat (le_word (b # bs) :: 'a word) = unat b OR push_bit 8 (le_nat bs)"
    by (simp add: unsigned_or_eq u p)
  also have "\<dots> = unat b + push_bit 8 (le_nat bs)"
    using b by (rule or_push_bit_add)
  finally show ?case by (simp add: push_bit_eq_mult)
qed

lemma LE64_le_word:
  "LittleEndian_Uint64 [b0, b1, b2, b3, b4, b5, b6, b7] = le_word [b0, b1, b2, b3, b4, b5, b6, b7]"
  by (simp add: LittleEndian_Uint64_def)

lemma LE32_le_word: "LittleEndian_Uint32 [b0, b1, b2, b3] = le_word [b0, b1, b2, b3]"
  by (simp add: LittleEndian_Uint32_def)

lemma LE16_le_word: "LittleEndian_Uint16 [b0, b1] = le_word [b0, b1]"
  by (simp add: LittleEndian_Uint16_def)

lemma BE32_le_word: "BigEndian_Uint32 [b0, b1, b2, b3] = le_word [b3, b2, b1, b0]"
  by (simp add: BigEndian_Uint32_def)

lemma BE16_le_word: "BigEndian_Uint16 [b0, b1] = le_word [b1, b0]"
  by (simp add: BigEndian_Uint16_def)

lemma unat_LE64: "length bs = 8 \<Longrightarrow> unat (LittleEndian_Uint64 bs) = le_nat bs"
proof -
  assume l: "length bs = 8"
  then obtain b0 b1 b2 b3 b4 b5 b6 b7 where bs: "bs = [b0, b1, b2, b3, b4, b5, b6, b7]"
    by (auto simp: numeral_eq_Suc length_Suc_conv)
  have "unat (le_word bs :: 64 word) = le_nat bs"
    by (rule unat_le_word) (simp add: l)
  then show ?thesis by (simp only: bs LE64_le_word)
qed

lemma unat_LE32: "length bs = 4 \<Longrightarrow> unat (LittleEndian_Uint32 bs) = le_nat bs"
proof -
  assume l: "length bs = 4"
  then obtain b0 b1 b2 b3 where bs: "bs = [b0, b1, b2, b3]"
    by (auto simp: numeral_eq_Suc length_Suc_conv)
  have "unat (le_word bs :: 32 word) = le_nat bs"
    by (rule unat_le_word) (simp add: l)
  then show ?thesis by (simp only: bs LE32_le_word)
qed

lemma unat_LE16: "length bs = 2 \<Longrightarrow> unat (LittleEndian_Uint16 bs) = le_nat bs"
proof -
  assume l: "length bs = 2"
  then obtain b0 b1 where bs: "bs = [b0, b1]"
    by (auto simp: numeral_eq_Suc length_Suc_conv)
  have "unat (le_word bs :: 16 word) = le_nat bs"
    by (rule unat_le_word) (simp add: l)
  then show ?thesis by (simp only: bs LE16_le_word)
qed

lemma unat_BE32: "length bs = 4 \<Longrightarrow> unat (BigEndian_Uint32 bs) = be_nat bs"
proof -
  assume l: "length bs = 4"
  then obtain b0 b1 b2 b3 where bs: "bs = [b0, b1, b2, b3]"
    by (auto simp: numeral_eq_Suc length_Suc_conv)
  have "unat (le_word (rev bs) :: 32 word) = le_nat (rev bs)"
    by (rule unat_le_word) (simp add: l)
  then show ?thesis by (simp add: bs BE32_le_word be_nat_def del: le_word.simps le_nat.simps)
qed

lemma unat_BE16: "length bs = 2 \<Longrightarrow> unat (BigEndian_Uint16 bs) = be_nat bs"
proof -
  assume l: "length bs = 2"
  then obtain b0 b1 where bs: "bs = [b0, b1]"
    by (auto simp: numeral_eq_Suc length_Suc_conv)
  have "unat (le_word (rev bs) :: 16 word) = le_nat (rev bs)"
    by (rule unat_le_word) (simp add: l)
  then show ?thesis by (simp add: bs BE16_le_word be_nat_def del: le_word.simps le_nat.simps)
qed

lemma word_of_unat: "unat (w :: 'a::len word) = n \<Longrightarrow> w = of_nat n"
  by auto

lemma slice_bytes_at: "slice b lo (lo + int w) = bytes_at b lo w"
  by (simp add: slice_def bytes_at_def)

lemma length_bytes_at:
  "0 \<le> off \<Longrightarrow> off + int w \<le> int (length b) \<Longrightarrow> length (bytes_at b off w) = w"
  by (simp add: bytes_at_def)

lemma bytes_at_1:
  "0 \<le> off \<Longrightarrow> off + 1 \<le> int (length b) \<Longrightarrow> bytes_at b off 1 = [b ! nat off]"
  by (simp add: bytes_at_def take_Suc_conv_app_nth hd_drop_conv_nth take_Suc)

subsection \<open>The fixed-width decoders\<close>

lemma DecodeUint8_fixed:
  assumes "0 \<le> cursor d" "cursor d \<le> int (length (buffer d))"
  shows "DecodeUint8 d m = fixed_width d m 1 ''uint8'' (of_nat (le_nat (bytes_at (buffer d) (cursor d) 1)))"
proof (cases "int (length (buffer d)) - cursor d < 1")
  case True
  with assms show ?thesis
    by (simp add: DecodeUint8_def Let_def slice_from_valid makeBufferTooShortError_def
        fixed_width_def)
next
  case False
  with assms have "bytes_at (buffer d) (cursor d) 1 = [buffer d ! nat (cursor d)]"
    by (intro bytes_at_1) auto
  with False assms show ?thesis
    by (simp add: DecodeUint8_def Let_def slice_from_valid fixed_width_def index_def)
qed

lemma DecodeInt8_fixed:
  assumes "0 \<le> cursor d" "cursor d \<le> int (length (buffer d))"
  shows "DecodeInt8 d m = fixed_width d m 1 ''int8'' (of_nat (le_nat (bytes_at (buffer d) (cursor d) 1)))"
proof (cases "int (length (buffer d)) - cursor d < 1")
  case True
  with assms show ?thesis
    by (simp add: DecodeInt8_def Let_def slice_from_valid makeBufferTooShortError_def
        fixed_width_def)
next
  case False
  with assms have "bytes_at (buffer d) (cursor d) 1 = [buffer d ! nat (cursor d)]"
    by (intro bytes_at_1) auto
  with False assms show ?thesis
    by (simp add: DecodeInt8_def Let_def slice_from_valid fixed_width_def index_def)
qed

lemma DecodeUint16_fixed:
  assumes "0 \<le> cursor d" "cursor d \<le> int (length (buffer d))"
  shows "DecodeUint16 d m =
    fixed_width d m 2 ''uint16'' (of_nat (le_nat (bytes_at (buffer d) (cursor d) 2)))"
proof (cases "int (length (buffer d)) - cursor d < 2")
  case True
  with assms show ?thesis
    by (simp add: DecodeUint16_def Let_def slice_from_valid makeBufferTooShortError_def
        fixed_width_def)
next
  case False
  with assms have "length (bytes_at (buffer d) (cursor d) 2) = 2"
    by (intro length_bytes_at) auto
  then have "LittleEndian_Uint16 (bytes_at (buffer d) (cursor d) 2) =
      of_nat (le_nat (bytes_at (buffer d) (cursor d) 2))"
    by (intro word_of_unat unat_LE16)
  with False assms show ?thesis
    using slice_bytes_at [of "buffer d" "cursor d" 2]
    by (simp add: DecodeUint16_def Let_def slice_from_valid fixed_width_def)
qed

lemma DecodeUint16BigEndian_fixed:
  assumes "0 \<le> cursor d" "cursor d \<le> int (length (buffer d))"
  shows "DecodeUint16BigEndian d m =
    fixed_width d m 2 ''uint16'' (of_nat (be_nat (bytes_at (buffer d) (cursor d) 2)))"
proof (cases "int (length (buffer d)) - cursor d < 2")
  case True
  with assms show ?thesis
    by (simp add: DecodeUint16BigEndian_def Let_def slice_from_valid makeBufferTooShortError_def
        fixed_width_def)
next
  case False
  with assms have "length (bytes_at (buffer d) (cursor d) 2) = 2"
    by (intro length_bytes_at) auto
  then have "BigEndian_Uint16 (bytes_at (buffer d) (cursor d) 2) =
      of_nat (be_nat (bytes_at (buffer d) (cursor d) 2))"
    by (intro word_of_unat unat_BE16)
  with False assms show ?thesis
    using slice_bytes_at [of "buffer d" "cursor d" 2]
    by (simp add: DecodeUint16BigEndian_def Let_def slice_from_valid fixed_width_def)
qed

lemma DecodeInt16_fixed:
  assumes "0 \<le> cursor d" "cursor d \<le> int (length (buffer d))"
  shows "DecodeInt16 d m =
    fixed_width d m 2 ''int16'' (of_nat (le_nat (bytes_at (buffer d) (cursor d) 2)))"
proof (cases "int (length (buffer d)) - cursor d < 2")
  case True
  with assms show ?thesis
    by (simp add: DecodeInt16_def Let_def slice_from_valid makeBufferTooShortError_def
        fixed_width_def)
next
  case False
  with assms have "length (bytes_at (buffer d) (cursor d) 2) = 2"
    by (intro length_bytes_at) auto
  then have "LittleEndian_Uint16 (bytes_at (buffer d) (cursor d) 2) =
      of_nat (le_nat (bytes_at (buffer d) (cursor d) 2))"
    by (intro word_of_unat unat_LE16)
  with False assms show ?thesis
    using slice_bytes_at [of "buffer d" "cursor d" 2]
    by (simp add: DecodeInt16_def Let_def slice_from_valid fixed_width_def)
qed

lemma DecodeUint32_fixed:
  assumes "0 \<le> cursor d" "cursor d \<le> int (length (buffer d))"
  shows "DecodeUint32 d m =
    fixed_width d m 4 ''uint32'' (of_nat (le_nat (bytes_at (buffer d) (cursor d) 4)))"
proof (cases "int (length (buffer d)) - cursor d < 4")
  case True
  with assms show ?thesis
    by (simp add: DecodeUint32_def Let_def slice_from_valid makeBufferTooShortError_def
        fixed_width_def)
next
  case False
  with assms have "length (bytes_at (buffer d) (cursor d) 4) = 4"
    by (intro length_bytes_at) auto
  then have "LittleEndian_Uint32 (bytes_at (buffer d) (cursor d) 4) =
      of_nat (le_nat (bytes_at (buffer d) (cursor d) 4))"
    by (intro word_of_unat unat_LE32)
  with False assms show ?thesis
    using slice_bytes_at [of "buffer d" "cursor d" 4]
    by (simp add: DecodeUint32_def Let_def slice_from_valid fixed_width_def)
qed

lemma DecodeUint32BigEndian_fixed:
  assumes "0 \<le> cursor d" "cursor d \<le> int (length (buffer d))"
  shows "DecodeUint32BigEndian d m =
    fixed_width d m 4 ''uint32 (big endian)'' (of_nat (be_nat (bytes_at (buffer d) (cursor d) 4)))"
proof (cases "int (length (buffer d)) - cursor d < 4")
  case True
  with assms show ?thesis
    by (simp add: DecodeUint32BigEndian_def Let_def slice_from_valid makeBufferTooShortError_def
        fixed_width_def)
next
  case False
  with assms have "length (bytes_at (buffer d) (cursor d) 4) = 4"
    by (intro length_bytes_at) auto
  then have "BigEndian_Uint32 (bytes_at (buffer d) (cursor d) 4) =
      of_nat (be_nat (bytes_at (buffer d) (cursor d) 4))"
    by (intro word_of_unat unat_BE32)
  with False assms show ?thesis
    using slice_bytes_at [of "buffer d" "cursor d" 4]
    by (simp add: DecodeUint32BigEndian_def Let_def slice_from_valid fixed_width_def)
qed

lemma DecodeInt32_fixed:
  assumes "0 \<le> cursor d" "cursor d \<le> int (length (buffer d))"
  shows "DecodeInt32 d m =
    fixed_width d m 4 ''int32'' (of_nat (le_nat (bytes_at (buffer d) (cursor d) 4)))"
proof (cases "int (length (buffer d)) - cursor d < 4")
  case True
  with assms show ?thesis
    by (simp add: DecodeInt32_def Let_def slice_from_valid makeBufferTooShortError_def
        fixed_width_def)
next
  case False
  with assms have "length (bytes_at (buffer d) (cursor d) 4) = 4"
    by (intro length_bytes_at) auto
  then have "LittleEndian_Uint32 (bytes_at (buffer d) (cursor d) 4) =
      of_nat (le_nat (bytes_at (buffer d) (cursor d) 4))"
    by (intro word_of_unat unat_LE32)
  with False assms show ?thesis
    using slice_bytes_at [of "buffer d" "cursor d" 4]
    by (simp add: DecodeInt32_def Let_def slice_from_valid fixed_width_def)
qed

lemma DecodeUint64_fixed:
  assumes "0 \<le> cursor d" "cursor d \<le> int (length (buffer d))"
  shows "DecodeUint64 d m =
    fixed_width d m 8 ''uint64'' (of_nat (le_nat (bytes_at (buffer d) (cursor d) 8)))"
proof (cases "int (length (buffer d)) - cursor d < 8")
  case True
  with assms show ?thesis
    by (simp add: DecodeUint64_def Let_def slice_from_valid makeBufferTooShortError_def
        fixed_width_def)
next
  case False
  with assms have "length (bytes_at (buffer d) (cursor d) 8) = 8"
    by (intro length_bytes_at) auto
  then have "LittleEndian_Uint64 (bytes_at (buffer d) (cursor d) 8) =
      of_nat (le_nat (bytes_at (buffer d) (cursor d) 8))"
    by (intro word_of_unat unat_LE64)
  with False assms show ?thesis
    using slice_bytes_at [of "buffer d" "cursor d" 8]
    by (simp add: DecodeUint64_def Let_def slice_from_valid fixed_width_def)
qed

lemma DecodeInt64_fixed:
  assumes "0 \<le> cursor d" "cursor d \<le> int (length (buffer d))"
  shows "DecodeInt64 d m =
    fixed_width d m 8 ''int64'' (of_nat (le_nat (bytes_at (buffer d) (cursor d) 8)))"
proof (cases "int (length (buffer d)) - cursor d < 8")
  case True
  with assms show ?thesis
    by (simp add: DecodeInt64_def Let_def slice_from_valid makeBufferTooShortError_def
        fixed_width_def)
next
  case False
  with assms have "length (bytes_at (buffer d) (cursor d) 8) = 8"
    by (intro length_bytes_at) auto
  then have "LittleEndian_Uint64 (bytes_at (buffer d) (cursor d) 8) =
      of_nat (le_nat (bytes_at (buffer d) (cursor d) 8))"
    by (intro word_of_unat unat_LE64)
  with False assms show ?thesis
    using slice_bytes_at [of "buffer d" "cursor d" 8]
    by (simp add: DecodeInt64_def Let_def slice_from_valid fixed_width_def)
qed

lemma DecodeBool_fixed:
  assumes "0 \<le> cursor d" "cursor d \<le> int (length (buffer d))"
  shows "DecodeBool d m = fixed_width d m 1 ''bool'' (le_nat (bytes_at (buffer d) (cursor d) 1) \<noteq> 0)"
proof (cases "int (length (buffer d)) - cursor d < 1")
  case True
  with assms show ?thesis
    by (simp add: DecodeBool_def Let_def slice_from_valid makeBufferTooShortError_def
        fixed_width_def)
next
  case False
  with assms have "bytes_at (buffer d) (cursor d) 1 = [buffer d ! nat (cursor d)]"
    by (intro bytes_at_1) auto
  with False assms show ?thesis
    by (simp add: DecodeBool_def Let_def slice_from_valid fixed_width_def index_def unat_eq_0)
qed

text \<open>
  C3. For every fixed-width decoder (8, 16, 32 and 64 bits, signed and unsigned, the two
  big-endian variants, boolean) and every decoder whose cursor lies in its buffer: with
  fewer bytes left than the width (so also with exactly width - 1), the call returns
  \<open>ErrBufferTooShort\<close> with the expected width, the number of bytes left and the type
  name, and leaves decoder and destination as they were; with at least the width left,
  it writes the little-endian reading of the next bytes (the big-endian reading for the
  two \<open>BigEndian\<close> variants, "non-zero" for the boolean) and advances the cursor by
  the width. In both cases the call returns: it does not panic, so it reads nothing out
  of bounds. A signed destination holds the same bits, read with \<open>sint\<close>.
  \<open>DecodeUint16BigEndian\<close> reports the type name \<open>uint16\<close>.
\<close>

theorem fixed_width_decoders:
  assumes "0 \<le> cursor d" "cursor d \<le> int (length (buffer d))"
  shows "DecodeUint8 d m8 =
       fixed_width d m8 1 ''uint8'' (of_nat (le_nat (bytes_at (buffer d) (cursor d) 1)))
     \<and> DecodeInt8 d m8 =
       fixed_width d m8 1 ''int8'' (of_nat (le_nat (bytes_at (buffer d) (cursor d) 1)))
     \<and> DecodeUint16 d m16 =
       fixed_width d m16 2 ''uint16'' (of_nat (le_nat (bytes_at (buffer d) (cursor d) 2)))
     \<and> DecodeUint16BigEndian d m16 =
       fixed_width d m16 2 ''uint16'' (of_nat (be_nat (bytes_at (buffer d) (cursor d) 2)))
     \<and> DecodeInt16 d m16 =
       fixed_width d m16 2 ''int16'' (of_nat (le_nat (bytes_at (buffer d) (cursor d) 2)))
     \<and> DecodeUint32 d m32 =
       fixed_width d m32 4 ''uint32'' (of_nat (le_nat (bytes_at (buffer d) (cursor d) 4)))
     \<and> DecodeUint32BigEndian d m32 =
       fixed_width d m32 4 ''uint32 (big endian)'' (of_nat (be_nat (bytes_at (buffer d) (cursor d) 4)))
     \<and> DecodeInt32 d m32 =
       fixed_width d m32 4 ''int32'' (of_nat (le_nat (bytes_at (buffer d) (cursor d) 4)))
     \<and> DecodeUint64 d m64 =
       fixed_width d m64 8 ''uint64'' (of_nat (le_nat (bytes_at (buffer d) (cursor d) 8)))
     \<and> DecodeInt64 d m64 =
       fixed_width d m64 8 ''int64'' (of_nat (le_nat (bytes_at (buffer d) (cursor d) 8)))
     \<and> DecodeBool d mb =
       fixed_width d mb 1 ''bool'' (le_nat (bytes_at (buffer d) (cursor d) 1) \<noteq> 0)"
  by (simp only: DecodeUint8_fixed [OF assms] DecodeInt8_fixed [OF assms]
      DecodeUint16_fixed [OF assms] DecodeUint16BigEndian_fixed [OF assms]
      DecodeInt16_fixed [OF assms] DecodeUint32_fixed [OF assms]
      DecodeUint32BigEndian_fixed [OF assms] DecodeInt32_fixed [OF assms]
      DecodeUint64_fixed [OF assms] DecodeInt64_fixed [OF assms] DecodeBool_fixed [OF assms]
      simp_thms)

theorem fixed_width_decoders_witness:
  "DecodeUint64 \<lparr>buffer = [1, 2, 3, 4, 5, 6, 7], cursor = 0\<rparr> 0 =
     Return (\<lparr>buffer = [1, 2, 3, 4, 5, 6, 7], cursor = 0\<rparr>, 0,
             Some (ErrBufferTooShort 8 7 ''uint64''))
   \<and> DecodeUint32 \<lparr>buffer = [1, 2, 3, 4, 5, 6, 7], cursor = 0\<rparr> 0 =
     Return (\<lparr>buffer = [1, 2, 3, 4, 5, 6, 7], cursor = 4\<rparr>, 0x04030201, None)
   \<and> DecodeUint16BigEndian \<lparr>buffer = [1, 2, 3, 4, 5, 6, 7], cursor = 0\<rparr> 0 =
     Return (\<lparr>buffer = [1, 2, 3, 4, 5, 6, 7], cursor = 2\<rparr>, 0x0102, None)
   \<and> DecodeBool \<lparr>buffer = [1, 2, 3, 4, 5, 6, 7], cursor = 0\<rparr> False =
     Return (\<lparr>buffer = [1, 2, 3, 4, 5, 6, 7], cursor = 1\<rparr>, True, None)"
  using fixed_width_decoders [where d = "\<lparr>buffer = [1, 2, 3, 4, 5, 6, 7], cursor = 0\<rparr>"
      and ?m8.0 = 0 and ?m16.0 = 0 and ?m32.0 = 0 and ?m64.0 = 0 and mb = False]
  by (simp add: fixed_width_def bytes_at_def be_nat_def)

subsection \<open>DecodeContext\<close>

lemma LE64_slice:
  "0 \<le> lo \<Longrightarrow> hi = lo + 8 \<Longrightarrow> hi \<le> int (length b) \<Longrightarrow>
   LittleEndian_Uint64 (slice b lo hi) = le_at b lo 8"
  using slice_bytes_at [of b lo 8] length_bytes_at [of lo 8 b]
  by (simp add: le_at_def word_of_unat unat_LE64)

lemma LE32_slice:
  "0 \<le> lo \<Longrightarrow> hi = lo + 4 \<Longrightarrow> hi \<le> int (length b) \<Longrightarrow>
   LittleEndian_Uint32 (slice b lo hi) = le_at b lo 4"
  using slice_bytes_at [of b lo 4] length_bytes_at [of lo 4 b]
  by (simp add: le_at_def word_of_unat unat_LE32)

lemma LE16_slice:
  "0 \<le> lo \<Longrightarrow> hi = lo + 2 \<Longrightarrow> hi \<le> int (length b) \<Longrightarrow>
   LittleEndian_Uint16 (slice b lo hi) = le_at b lo 2"
  using slice_bytes_at [of b lo 2] length_bytes_at [of lo 2 b]
  by (simp add: le_at_def word_of_unat unat_LE16)

lemma copy_slice:
  "length dst = 16 \<Longrightarrow> 0 \<le> lo \<Longrightarrow> hi = lo + 16 \<Longrightarrow> hi \<le> int (length b) \<Longrightarrow>
   copy dst (slice b lo hi) = bytes_at b lo 16"
  using slice_bytes_at [of b lo 16] length_bytes_at [of lo 16 b]
  by (simp add: copy_def)

lemma DecodeContext_short:
  assumes "0 \<le> cursor d" "cursor d \<le> int (length (buffer d))"
    and "int (length (buffer d)) - cursor d < 144"
  shows "DecodeContext d e =
     Return (d, e, Some (ErrContextSize (int (length (buffer d)) - cursor d) 144))"
  using assms by (simp add: DecodeContext_def Let_def slice_from_valid GetSizeBytes_def)

lemma DecodeContext_ok:
  assumes "0 \<le> cursor d" "144 \<le> int (length (buffer d)) - cursor d"
    and "length (Comm e) = 16" "length (UtsName e) = 16"
  shows "DecodeContext d e =
     Return (d\<lparr>cursor := cursor d + 144\<rparr>,
          \<lparr>Ts = le_at (buffer d) (cursor d) 8,
            StartTime = le_at (buffer d) (cursor d + 8) 8,
            CgroupID = le_at (buffer d) (cursor d + 16) 8,
            Pid = le_at (buffer d) (cursor d + 24) 4,
            Tid = le_at (buffer d) (cursor d + 28) 4,
            Ppid = le_at (buffer d) (cursor d + 32) 4,
            HostPid = le_at (buffer d) (cursor d + 36) 4,
            HostTid = le_at (buffer d) (cursor d + 40) 4,
            HostPpid = le_at (buffer d) (cursor d + 44) 4,
            Uid = le_at (buffer d) (cursor d + 48) 4,
            MntID = le_at (buffer d) (cursor d + 52) 4,
            PidID = le_at (buffer d) (cursor d + 56) 4,
            Comm = bytes_at (buffer d) (cursor d + 60) 16,
            UtsName = bytes_at (buffer d) (cursor d + 76) 16,
            Flags = le_at (buffer d) (cursor d + 92) 4,
            LeaderStartTime = le_at (buffer d) (cursor d + 96) 8,
            ParentStartTime = le_at (buffer d) (cursor d + 104) 8,
            EventID = le_at (buffer d) (cursor d + 112) 4,
            Syscall = le_at (buffer d) (cursor d + 116) 4,
            Retval = le_at (buffer d) (cursor d + 120) 8,
            StackID = le_at (buffer d) (cursor d + 128) 4,
            ProcessorId = le_at (buffer d) (cursor d + 132) 2,
            PoliciesVersion = le_at (buffer d) (cursor d + 134) 2,
            MatchedPolicies = le_at (buffer d) (cursor d + 136) 8\<rparr>,
          None)"
  using assms
  by (cases e)
    (simp add: DecodeContext_def Let_def slice_from_valid GetSizeBytes_def
      LE64_slice LE32_slice LE16_slice copy_slice)

text \<open>
  C2. For every decoder whose cursor lies in its buffer. With at least 144 bytes left,
  \<open>DecodeContext\<close> returns no error, advances the cursor by exactly 144 and leaves
  every field of the header decoded from its declared offset: the little-endian reading
  of the 8 bytes at 0, 8 and 16 (timestamp, start time, cgroup id), of the 4 bytes at
  24 .. 56 (pid, tid, ppid, host pid, host tid, host ppid, uid, mount namespace, pid
  namespace), at 92 (flags), at 112 and 116 (event id and syscall, read as signed), of the
  8 bytes at 96, 104, 120 (signed return value) and 136 (matched policies), of the 4
  bytes at 128 (stack id) and of the 2 bytes at 132 and 134 (processor id, policies
  version); and the 16 bytes at 60 and at 76 as \<open>Comm\<close> and \<open>UtsName\<close> (arrays of
  16 bytes). With fewer than 144 bytes left it returns an error and neither the context
  nor the cursor changes.
\<close>

theorem DecodeContext_layout:
  assumes "0 \<le> cursor d" "cursor d \<le> int (length (buffer d))"
  shows "(int (length (buffer d)) - cursor d < 144 \<longrightarrow>
            DecodeContext d e =
              Return (d, e, Some (ErrContextSize (int (length (buffer d)) - cursor d) 144)))
     \<and> (144 \<le> int (length (buffer d)) - cursor d
          \<and> length (Comm e) = 16 \<and> length (UtsName e) = 16 \<longrightarrow>
            DecodeContext d e =
              Return (d\<lparr>cursor := cursor d + 144\<rparr>,
                \<lparr>Ts = le_at (buffer d) (cursor d) 8,
                 StartTime = le_at (buffer d) (cursor d + 8) 8,
                 CgroupID = le_at (buffer d) (cursor d + 16) 8,
                 Pid = le_at (buffer d) (cursor d + 24) 4,
                 Tid = le_at (buffer d) (cursor d + 28) 4,
                 Ppid = le_at (buffer d) (cursor d + 32) 4,
                 HostPid = le_at (buffer d) (cursor d + 36) 4,
                 HostTid = le_at (buffer d) (cursor d + 40) 4,
                 HostPpid = le_at (buffer d) (cursor d + 44) 4,
                 Uid = le_at (buffer d) (cursor d + 48) 4,
                 MntID = le_at (buffer d) (cursor d + 52) 4,
                 PidID = le_at (buffer d) (cursor d + 56) 4,
                 Comm = bytes_at (buffer d) (cursor d + 60) 16,
                 UtsName = bytes_at (buffer d) (cursor d + 76) 16,
                 Flags = le_at (buffer d) (cursor d + 92) 4,
                 LeaderStartTime = le_at (buffer d) (cursor d + 96) 8,
                 ParentStartTime = le_at (buffer d) (cursor d + 104) 8,
                 EventID = le_at (buffer d) (cursor d + 112) 4,
                 Syscall = le_at (buffer d) (cursor d + 116) 4,
                 Retval = le_at (buffer d) (cursor d + 120) 8,
                 StackID = le_at (buffer d) (cursor d + 128) 4,
                 ProcessorId = le_at (buffer d) (cursor d + 132) 2,
                 PoliciesVersion = le_at (buffer d) (cursor d + 134) 2,
                 MatchedPolicies = le_at (buffer d) (cursor d + 136) 8\<rparr>,
                None))"
  using assms DecodeContext_short [of d e] DecodeContext_ok [of d e] by blast

theorem DecodeContext_layout_witness:
  "DecodeContext \<lparr>buffer = sample_header, cursor = 0\<rparr> zero_EventContext =
     Return (\<lparr>buffer = sample_header, cursor = 144\<rparr>,
       \<lparr>Ts = 3759703178913843715,
        StartTime = 7810752857846137403,
        CgroupID = 11861802536778431091,
        Pid = 3233395371,
        Tid = 3704999623,
        Ppid = 4176603875,
        HostPid = 336398079,
        HostTid = 808002075,
        HostPpid = 1279606327,
        Uid = 1751210579,
        MntID = 2222814831,
        PidID = 2694419083,
        Comm = [167, 174, 181, 188, 195, 202, 209, 216, 223, 230, 237, 244, 251, 2, 9, 16],
        UtsName = [23, 30, 37, 44, 51, 58, 65, 72, 79, 86, 93, 100, 107, 114, 121, 128],
        Flags = 2627047047,
        LeaderStartTime = 15334130833006111395,
        ParentStartTime = 866378844190925531,
        EventID = 673258003,
        Syscall = 1144862255,
        Retval = 8968195623255364171,
        StackID = 2559675011,
        ProcessorId = 42655,
        PoliciesVersion = 46253,
        MatchedPolicies = 17070294981119951547\<rparr>,
       None)
   \<and> DecodeContext \<lparr>buffer = [1, 2, 3], cursor = 1\<rparr> zero_EventContext =
     Return (\<lparr>buffer = [1, 2, 3], cursor = 1\<rparr>, zero_EventContext,
             Some (ErrContextSize 2 144))"
proof -
  have len: "length sample_header = 144" by (simp add: sample_header_def)
  have z: "length (Comm zero_EventContext) = 16" "length (UtsName zero_EventContext) = 16"
    by (simp_all add: zero_EventContext_def)
  have ok: "DecodeContext \<lparr>buffer = sample_header, cursor = 0\<rparr> zero_EventContext =
     Return (\<lparr>buffer = sample_header, cursor = 144\<rparr>,
       \<lparr>Ts = le_at sample_header 0 8,
        StartTime = le_at sample_header (8) 8,
        CgroupID = le_at sample_header (16) 8,
        Pid = le_at sample_header (24) 4,
        Tid = le_at sample_header (28) 4,
        Ppid = le_at sample_header (32) 4,
        HostPid = le_at sample_header (36) 4,
        HostTid = le_at sample_header (40) 4,
        HostPpid = le_at sample_header (44) 4,
        Uid = le_at sample_header (48) 4,
        MntID = le_at sample_header (52) 4,
        PidID = le_at sample_header (56) 4,
        Comm = bytes_at sample_header (60) 16,
        UtsName = bytes_at sample_header (76) 16,
        Flags = le_at sample_header (92) 4,
        LeaderStartTime = le_at sample_header (96) 8,
        ParentStartTime = le_at sample_header (104) 8,
        EventID = le_at sample_header (112) 4,
        Syscall = le_at sample_header (116) 4,
        Retval = le_at sample_header (120) 8,
        StackID = le_at sample_header (128) 4,
        ProcessorId = le_at sample_header (132) 2,
        PoliciesVersion = le_at sample_header (134) 2,
        MatchedPolicies = le_at sample_header (136) 8\<rparr>,
       None)"
    using DecodeContext_layout [of "\<lparr>buffer = sample_header, cursor = 0\<rparr>" zero_EventContext]
    by (simp add: len z)
  have short: "DecodeContext \<lparr>buffer = [1, 2, 3], cursor = 1\<rparr> zero_EventContext =
     Return (\<lparr>buffer = [1, 2, 3], cursor = 1\<rparr>, zero_EventContext,
             Some (ErrContextSize 2 144))"
    using DecodeContext_layout [of "\<lparr>buffer = [1, 2, 3], cursor = 1\<rparr>" zero_EventContext]
    by simp
  show ?thesis
    unfolding ok short
    by (simp add: le_at_def bytes_at_def sample_header_def)
qed

subsection \<open>MoveCursor\<close>

lemma MoveCursor_in_range:
  "in_int (cursor d + n) \<Longrightarrow>
   MoveCursor d n =
     (if cursor d + n > int (length (buffer d)) then (d, cursor d)
      else (d\<lparr>cursor := cursor d + n\<rparr>, cursor d + n))"
  by (simp add: MoveCursor_def Let_def int_add_in_range)

lemma MoveCursor_in_range_example:
  "MoveCursor \<lparr>buffer = [1, 2, 3], cursor = 1\<rparr> 2 = (\<lparr>buffer = [1, 2, 3], cursor = 3\<rparr>, 3)
   \<and> MoveCursor \<lparr>buffer = [1, 2, 3], cursor = 1\<rparr> 3 = (\<lparr>buffer = [1, 2, 3], cursor = 1\<rparr>, 1)"
  by (simp add: MoveCursor_in_range in_int_def)

text \<open>
  C8. For every decoder state and every skip amount \<open>n\<close>, \<open>MoveCursor(n)\<close> is to
  advance the cursor by \<open>n\<close> and return the new position when \<open>cursor + n\<close> does not
  exceed the buffer length, and to leave the cursor unchanged and return the old position
  when it does; no error is signalled. \<open>MoveCursor\<close> does so whenever \<open>cursor + n\<close> is
  representable as an \<open>int\<close> (\<open>MoveCursor_in_range\<close>). It does not for every skip
  amount: the guard compares Go's sum, which wraps. With the cursor at 1 in a buffer of
  three bytes and \<open>n\<close> the greatest \<open>int\<close>, \<open>cursor + n\<close> is \<open>2 ^ 63\<close> and exceeds
  the buffer length, Go's sum is \<open>- (2 ^ 63)\<close>, the guard does not hold, and the cursor
  moves to \<open>- (2 ^ 63)\<close>, which is returned, where it was to stay at 1.
\<close>

theorem MoveCursor_overflow:
  "in_int (2 ^ 63 - 1)
   \<and> cursor \<lparr>buffer = [1, 2, 3], cursor = 1\<rparr> + (2 ^ 63 - 1)
       > int (length (buffer \<lparr>buffer = [1, 2, 3], cursor = 1\<rparr>))
   \<and> MoveCursor \<lparr>buffer = [1, 2, 3], cursor = 1\<rparr> (2 ^ 63 - 1) =
       (\<lparr>buffer = [1, 2, 3], cursor = - (2 ^ 63)\<rparr>, - (2 ^ 63))
   \<and> MoveCursor \<lparr>buffer = [1, 2, 3], cursor = 1\<rparr> (2 ^ 63 - 1) \<noteq>
       (\<lparr>buffer = [1, 2, 3], cursor = 1\<rparr>, 1)"
  by (simp add: MoveCursor_def int_add_def int_wrap_def in_int_def Let_def)

lemma negative_cursor_panics: "cursor d < 0 \<Longrightarrow> DecodeUint8 d m8 = Panic \<and> DecodeInt8 d m8 = Panic
  \<and> DecodeUint16 d m16 = Panic \<and> DecodeUint16BigEndian d m16 = Panic \<and> DecodeInt16 d m16 = Panic
  \<and> DecodeUint32 d m32 = Panic \<and> DecodeUint32BigEndian d m32 = Panic \<and> DecodeInt32 d m32 = Panic
  \<and> DecodeUint64 d m64 = Panic \<and> DecodeInt64 d m64 = Panic \<and> DecodeBool d mb = Panic"
  by (simp add: DecodeUint8_def DecodeInt8_def DecodeUint16_def DecodeUint16BigEndian_def
      DecodeInt16_def DecodeUint32_def DecodeUint32BigEndian_def DecodeInt32_def
      DecodeUint64_def DecodeInt64_def DecodeBool_def Let_def slice_from_negative)

text \<open>
  C9. \<open>MoveCursor\<close> guards the upper bound only. For every negative \<open>n\<close> with
  \<open>cursor + n\<close> at most the buffer length (and representable), \<open>MoveCursor(n)\<close>
  moves the cursor back to \<open>cursor + n\<close>. When \<open>n < -cursor\<close> the new cursor is
  negative, and the next fixed-width decoder slices the buffer at a negative index: it
  panics instead of returning. The cursor is not forward-only.
\<close>

theorem MoveCursor_backward:
  assumes "n < 0" "in_int (cursor d + n)" "cursor d + n \<le> int (length (buffer d))"
  shows "MoveCursor d n = (d\<lparr>cursor := cursor d + n\<rparr>, cursor d + n)
    \<and> (n < - cursor d \<longrightarrow>
         cursor (fst (MoveCursor d n)) < 0
         \<and> DecodeUint8 (fst (MoveCursor d n)) m8 = Panic
         \<and> DecodeUint16 (fst (MoveCursor d n)) m16 = Panic
         \<and> DecodeUint32 (fst (MoveCursor d n)) m32 = Panic
         \<and> DecodeUint64 (fst (MoveCursor d n)) m64 = Panic
         \<and> DecodeBool (fst (MoveCursor d n)) mb = Panic)"
proof -
  from assms have mv: "MoveCursor d n = (d\<lparr>cursor := cursor d + n\<rparr>, cursor d + n)"
    by (simp add: MoveCursor_def Let_def int_add_in_range)
  show ?thesis
  proof (intro conjI impI)
    show "MoveCursor d n = (d\<lparr>cursor := cursor d + n\<rparr>, cursor d + n)" by (rule mv)
  next
    assume "n < - cursor d"
    then have neg: "cursor (fst (MoveCursor d n)) < 0" by (simp add: mv)
    then show "cursor (fst (MoveCursor d n)) < 0" .
    from neg show "DecodeUint8 (fst (MoveCursor d n)) m8 = Panic" by (simp add: negative_cursor_panics)
    from neg show "DecodeUint16 (fst (MoveCursor d n)) m16 = Panic" by (simp add: negative_cursor_panics)
    from neg show "DecodeUint32 (fst (MoveCursor d n)) m32 = Panic" by (simp add: negative_cursor_panics)
    from neg show "DecodeUint64 (fst (MoveCursor d n)) m64 = Panic" by (simp add: negative_cursor_panics)
    from neg show "DecodeBool (fst (MoveCursor d n)) mb = Panic" by (simp add: negative_cursor_panics)
  qed
qed

theorem MoveCursor_backward_witness:
  "MoveCursor \<lparr>buffer = [1, 2, 3], cursor = 1\<rparr> (- 2) = (\<lparr>buffer = [1, 2, 3], cursor = - 1\<rparr>, - 1)
   \<and> DecodeUint8 (fst (MoveCursor \<lparr>buffer = [1, 2, 3], cursor = 1\<rparr> (- 2))) 0 = Panic"
proof -
  let ?d = "\<lparr>buffer = [1, 2, 3], cursor = 1\<rparr>"
  have a: "(- 2 :: int) < 0" by simp
  have b: "in_int (cursor ?d + - 2)" by (simp add: in_int_def)
  have c: "cursor ?d + - 2 \<le> int (length (buffer ?d))" by simp
  have e: "(- 2 :: int) < - cursor ?d" by simp
  note F = MoveCursor_backward [where n = "- 2" and d = ?d and ?m8.0 = 0 and ?m16.0 = 0
      and ?m32.0 = 0 and ?m64.0 = 0 and mb = False, OF a b c]
  have F1: "MoveCursor ?d (- 2) = (\<lparr>buffer = [1, 2, 3], cursor = - 1\<rparr>, - 1)"
    using F [THEN conjunct1] by simp
  have F2: "DecodeUint8 (fst (MoveCursor ?d (- 2))) 0 = Panic"
    using F [THEN conjunct2, rule_format, OF e] by blast
  show ?thesis by (intro conjI) (rule F1, rule F2)
qed

subsection \<open>DecodeUint64Array\<close>

lemma DecodeUint64Array_loop_unfold:
  "DecodeUint64Array_loop i arrLen decoder msg =
     (if i < arrLen
      then (case DecodeUint64 decoder 0 of
              Panic \<Rightarrow> Panic
            | Return (decoder', element, Some err) \<Rightarrow>
                Return (decoder', msg, Some (ErrArrayElement i err))
            | Return (decoder', element, None) \<Rightarrow>
                DecodeUint64Array_loop (i + 1) arrLen decoder' (msg @ [element]))
      else Return (decoder, msg, None))"
  by (rule DecodeUint64Array_loop.simps)

lemma DecodeUint64Array_loop_short:
  assumes "m = nat ((int (length (buffer d)) - cursor d) div 8)"
    and "0 \<le> cursor d" "cursor d \<le> int (length (buffer d))"
    and "int (length (buffer d)) - cursor d < 8 * (n - i)"
  shows "DecodeUint64Array_loop i n d msg =
     Return (d\<lparr>cursor := cursor d + 8 * int m\<rparr>,
             msg @ uint64_elements (buffer d) (cursor d) m,
             Some (ErrArrayElement (i + int m)
                    (ErrBufferTooShort 8 (int (length (buffer d)) - cursor d - 8 * int m)
                       ''uint64'')))"
  using assms
proof (induction m arbitrary: i d msg)
  case 0
  then have short: "int (length (buffer d)) - cursor d < 8" by linarith
  from "0.prems"(3,4) have "0 < 8 * (n - i)" by linarith
  then have "i < n" by simp
  moreover have "DecodeUint64 d 0 =
      Return (d, 0, Some (ErrBufferTooShort 8 (int (length (buffer d)) - cursor d) ''uint64''))"
    using 0 short by (simp add: DecodeUint64_fixed fixed_width_def)
  ultimately show ?case
    by (subst DecodeUint64Array_loop_unfold) simp
next
  case (Suc m)
  let ?d' = "d\<lparr>cursor := cursor d + 8\<rparr>"
  let ?e = "of_nat (le_nat (bytes_at (buffer d) (cursor d) 8)) :: 64 word"
  from Suc.prems have enough: "\<not> int (length (buffer d)) - cursor d < 8" by linarith
  from Suc.prems(3,4) have "0 < 8 * (n - i)" by linarith
  then have lt: "i < n" by simp
  have dec: "DecodeUint64 d 0 = Return (?d', ?e, None)"
    using Suc.prems enough by (simp add: DecodeUint64_fixed fixed_width_def)
  have m': "m = nat ((int (length (buffer ?d')) - cursor ?d') div 8)"
    using Suc.prems(1) by simp
  have IH: "DecodeUint64Array_loop (i + 1) n ?d' (msg @ [?e]) =
     Return (?d'\<lparr>cursor := cursor ?d' + 8 * int m\<rparr>,
             (msg @ [?e]) @ uint64_elements (buffer ?d') (cursor ?d') m,
             Some (ErrArrayElement (i + 1 + int m)
                    (ErrBufferTooShort 8 (int (length (buffer ?d')) - cursor ?d' - 8 * int m)
                       ''uint64'')))"
    using Suc.prems enough by (intro Suc.IH [OF m']) auto
  have IH': "DecodeUint64Array_loop (i + 1) n ?d' (msg @ [?e]) =
     Return (d\<lparr>cursor := cursor d + 8 * int (Suc m)\<rparr>,
             msg @ uint64_elements (buffer d) (cursor d) (Suc m),
             Some (ErrArrayElement (i + int (Suc m))
                    (ErrBufferTooShort 8 (int (length (buffer d)) - cursor d - 8 * int (Suc m))
                       ''uint64'')))"
    using IH by (simp add: algebra_simps)
  show ?case
    by (subst DecodeUint64Array_loop_unfold) (simp only: lt dec IH' if_True exec.case prod.case option.case)
qed

text \<open>
  C10. \<open>DecodeUint64Array\<close> is not atomic on failure. Whenever the 16-bit count at
  the cursor promises more uint64 elements than the bytes after it can supply, the call
  returns an error (the \<open>BufferTooShort\<close> of the first element that does not fit,
  wrapped with its index), and yet every element decoded before it is appended to the
  destination, and the cursor stays advanced past the count and those \<open>m\<close>
  elements: neither the destination nor the cursor is rolled back.
\<close>

theorem DecodeUint64Array_not_atomic:
  assumes "0 \<le> cursor d" "cursor d + 2 \<le> int (length (buffer d))"
    and "int (length (buffer d)) - (cursor d + 2)
           < 8 * int (le_nat (bytes_at (buffer d) (cursor d) 2))"
    and "m = nat ((int (length (buffer d)) - (cursor d + 2)) div 8)"
  shows "DecodeUint64Array d msg =
     Return (d\<lparr>cursor := cursor d + 2 + 8 * int m\<rparr>,
             msg @ uint64_elements (buffer d) (cursor d + 2) m,
             Some (ErrArrayElement (int m)
                    (ErrBufferTooShort 8 (int (length (buffer d)) - (cursor d + 2) - 8 * int m)
                       ''uint64'')))"
proof -
  let ?k = "le_nat (bytes_at (buffer d) (cursor d) 2)"
  let ?d' = "d\<lparr>cursor := cursor d + 2\<rparr>"
  have "length (bytes_at (buffer d) (cursor d) 2) = 2"
    using assms by (intro length_bytes_at) auto
  then have "?k < 2 ^ 16" using le_nat_bound [of "bytes_at (buffer d) (cursor d) 2"] by simp
  then have k: "uint (of_nat ?k :: 16 word) = int ?k"
    by (simp add: uint_nat unat_of_nat take_bit_nat_eq_self)
  have dec: "DecodeUint16 d 0 = Return (?d', of_nat ?k, None)"
    using assms by (simp add: DecodeUint16_fixed fixed_width_def)
  have "DecodeUint64Array_loop 0 (int ?k) ?d' msg =
     Return (?d'\<lparr>cursor := cursor ?d' + 8 * int m\<rparr>,
             msg @ uint64_elements (buffer ?d') (cursor ?d') m,
             Some (ErrArrayElement (0 + int m)
                    (ErrBufferTooShort 8 (int (length (buffer ?d')) - cursor ?d' - 8 * int m)
                       ''uint64'')))"
    using assms by (intro DecodeUint64Array_loop_short) auto
  then show ?thesis
    by (simp add: DecodeUint64Array_def dec k)
qed

theorem DecodeUint64Array_not_atomic_witness:
  "DecodeUint64Array \<lparr>buffer = [2, 0, 1, 0, 0, 0, 0, 0, 0, 0, 9, 9, 9], cursor = 0\<rparr> [7] =
     Return (\<lparr>buffer = [2, 0, 1, 0, 0, 0, 0, 0, 0, 0, 9, 9, 9], cursor = 10\<rparr>, [7, 1],
             Some (ErrArrayElement 1 (ErrBufferTooShort 8 3 ''uint64'')))"
  using DecodeUint64Array_not_atomic
    [of "\<lparr>buffer = [2, 0, 1, 0, 0, 0, 0, 0, 0, 0, 9, 9, 9], cursor = 0\<rparr>" 1 "[7]"]
  by (simp add: bytes_at_def)

section \<open>Properties of the derivation engine\<close>

subsection \<open>Register\<close>

lemma Register_present:
  "registered t a b \<Longrightarrow> Register t a b c f = (t, Some (alreadyRegisteredError a b))"
  by (auto simp: registered_def Register_def Let_def split: option.splits)

lemma Register_absent:
  "\<not> registered t a b \<Longrightarrow>
   Register t a b c f =
     (t(a \<mapsto> (rules_of t a)(b \<mapsto> \<lparr>DeriveFunction = f, Enabled = c\<rparr>)), None)"
  by (auto simp: registered_def rules_of_def Register_def Let_def split: option.splits)

text \<open>
  C7. For every derivation table: when the pair (source, target) is already registered,
  \<open>Register\<close> fails with \<open>alreadyRegisteredError\<close> and leaves the table as it
  was, so the first registration's rule and predicate stay; when the pair is absent,
  \<open>Register\<close> inserts the rule under the pair, changes nothing else, and returns no
  error. Registering the same pair a second time therefore fails and keeps the table
  of the first registration.
\<close>

theorem Register_contract:
  "(registered t a b \<longrightarrow> Register t a b c f = (t, Some (alreadyRegisteredError a b)))
   \<and> (\<not> registered t a b \<longrightarrow>
        Register t a b c f =
          (t(a \<mapsto> (rules_of t a)(b \<mapsto> \<lparr>DeriveFunction = f, Enabled = c\<rparr>)), None)
        \<and> Register (fst (Register t a b c f)) a b c' f' =
          (fst (Register t a b c f), Some (alreadyRegisteredError a b)))"
proof -
  have "registered (t(a \<mapsto> (rules_of t a)(b \<mapsto> \<lparr>DeriveFunction = f, Enabled = c\<rparr>))) a b"
    by (simp add: registered_def)
  then show ?thesis
    by (simp add: Register_present Register_absent)
qed

theorem Register_contract_witness:
  "Register Map.empty 1 12 (\<lambda>u. True) no_derivation =
     ([1 \<mapsto> [12 \<mapsto> \<lparr>DeriveFunction = no_derivation, Enabled = \<lambda>u. True\<rparr>]], None)
   \<and> Register [1 \<mapsto> [12 \<mapsto> \<lparr>DeriveFunction = no_derivation, Enabled = \<lambda>u. True\<rparr>]] 1 12
        (\<lambda>u. False) failing_derivation =
     ([1 \<mapsto> [12 \<mapsto> \<lparr>DeriveFunction = no_derivation, Enabled = \<lambda>u. True\<rparr>]],
      Some (alreadyRegisteredError 1 12))"
  using Register_contract [of Map.empty 1 12 "\<lambda>u. True" no_derivation "\<lambda>u. False" failing_derivation]
    Register_contract [of "[1 \<mapsto> [12 \<mapsto> \<lparr>DeriveFunction = no_derivation, Enabled = \<lambda>u. True\<rparr>]]"
      1 12 "\<lambda>u. False" failing_derivation "\<lambda>u. False" failing_derivation]
  by (simp add: registered_def rules_of_def)

subsection \<open>DeriveEvent\<close>

lemma DeriveEvent_loop_acc:
  "DeriveEvent_loop rules event ds es h =
     (case DeriveEvent_loop rules event [] [] h of (ds', es', h') \<Rightarrow> (ds @ ds', es @ es', h'))"
proof (induction rules arbitrary: ds es h)
  case Nil
  show ?case by simp
next
  case (Cons x rules)
  obtain id' r where x: "x = (id', r)" by (cases x)
  show ?case
  proof (cases "Enabled r ()")
    case False
    with x Cons.IH [of ds es h] show ?thesis by simp
  next
    case True
    obtain d e h1 where f: "DeriveFunction r event h = (d, e, h1)"
      by (cases "DeriveFunction r event h") auto
    from Cons.IH [of "ds @ d" "es @ map (deriveError id') e" h1]
      Cons.IH [of "d" "map (deriveError id') e" h1]
    show ?thesis using x True f by (simp split: prod.splits)
  qed
qed

lemma DeriveEvent_loop_append:
  "DeriveEvent_loop (rs1 @ rs2) event ds es h =
     (case DeriveEvent_loop rs1 event ds es h of
        (ds', es', h') \<Rightarrow> DeriveEvent_loop rs2 event ds' es' h')"
  by (induction rs1 arbitrary: ds es h) (auto split: prod.splits)

lemma range_map_append: "range_map m (xs @ ys) = range_map m xs @ range_map m ys"
  by (simp add: range_map_def List.map_filter_def)

lemma range_map_Cons_Some: "m k = Some r \<Longrightarrow> range_map m (k # ys) = (k, r) # range_map m ys"
  by (simp add: range_map_def List.map_filter_def)

lemma range_map_Cons_None: "m k = None \<Longrightarrow> range_map m (k # ys) = range_map m ys"
  by (simp add: range_map_def List.map_filter_def)

lemma DeriveEvent_rules_of:
  "DeriveEvent t order event h =
     DeriveEvent_loop (range_map (rules_of t (word_of_int (EventID event))) order) event [] [] h"
  by (simp add: DeriveEvent_def rules_of_def Let_def)

lemma DeriveEvent_step:
  assumes "rules_of t (word_of_int (EventID event)) k = Some r" "Enabled r ()"
  shows "DeriveEvent t (before @ k # after) event h =
     (case DeriveEvent t before event h of
        (d1, e1, h1) \<Rightarrow>
          (case DeriveFunction r event h1 of
             (d, e, h2) \<Rightarrow>
               (case DeriveEvent t after event h2 of
                  (d3, e3, h3) \<Rightarrow> (d1 @ d @ d3, e1 @ map (deriveError k) e @ e3, h3))))"
proof -
  let ?m = "rules_of t (word_of_int (EventID event))"
  obtain d1 e1 h1 where 1: "DeriveEvent_loop (range_map ?m before) event [] [] h = (d1, e1, h1)"
    by (cases "DeriveEvent_loop (range_map ?m before) event [] [] h") auto
  obtain d e h2 where 2: "DeriveFunction r event h1 = (d, e, h2)"
    by (cases "DeriveFunction r event h1") auto
  obtain d3 e3 h3 where 3: "DeriveEvent_loop (range_map ?m after) event [] [] h2 = (d3, e3, h3)"
    by (cases "DeriveEvent_loop (range_map ?m after) event [] [] h2") auto
  have "DeriveEvent_loop (range_map ?m after) event (d1 @ d) (e1 @ map (deriveError k) e) h2 =
      ((d1 @ d) @ d3, (e1 @ map (deriveError k) e) @ e3, h3)"
    by (subst DeriveEvent_loop_acc) (simp add: 3)
  then show ?thesis
    using assms 1 2 3
    by (simp add: DeriveEvent_rules_of range_map_append range_map_Cons_Some
        DeriveEvent_loop_append)
qed

lemma DeriveEvent_skip:
  assumes "rules_of t (word_of_int (EventID event)) k = None
     \<or> (\<exists>r. rules_of t (word_of_int (EventID event)) k = Some r \<and> \<not> Enabled r ())"
  shows "DeriveEvent t (before @ k # after) event h = DeriveEvent t (before @ after) event h"
  using assms
  by (auto simp: DeriveEvent_rules_of range_map_append range_map_Cons_Some range_map_Cons_None
      DeriveEvent_loop_append split: prod.splits)

lemma two_keys:
  assumes "distinct xs" "set xs = {a, b}" "a \<noteq> b"
  shows "xs = [a, b] \<or> xs = [b, a]"
proof -
  from assms have "length xs = 2"
    using distinct_card [of xs] by simp
  then obtain x y where xs: "xs = [x, y]"
    by (auto simp: numeral_eq_Suc length_Suc_conv)
  with assms show ?thesis by auto
qed

lemma DeriveEvent_two_rules:
  assumes "t (word_of_int (EventID event)) = Some m"
    and "dom m = {a, b}" "a \<noteq> b" "m a = Some ruleA" "m b = Some ruleB"
    and "Enabled ruleA ()" "Enabled ruleB ()"
    and A: "\<forall>h. DeriveFunction ruleA event h = ([], [err], hA h)"
    and B: "\<forall>h. DeriveFunction ruleB event h = ([de h], [], hB h)"
    and "distinct order" "set order = dom m"
  shows "(order = [a, b] \<and>
           DeriveEvent t order event h = ([de (hA h)], [deriveError a err], hB (hA h)))
       \<or> (order = [b, a] \<and>
           DeriveEvent t order event h = ([de h], [deriveError a err], hA (hB h)))"
proof -
  from assms have "order = [a, b] \<or> order = [b, a]"
    by (intro two_keys) auto
  then show ?thesis
  proof
    assume o: "order = [a, b]"
    with assms show ?thesis
      by (simp add: DeriveEvent_def range_map_def List.map_filter_simps)
  next
    assume o: "order = [b, a]"
    with assms show ?thesis
      by (simp add: DeriveEvent_def range_map_def List.map_filter_simps)
  qed
qed

text \<open>
  C1. For every table, base event and store, and every enabled rule \<open>r\<close> registered
  under the identifier of the event for a target \<open>k\<close>: wherever \<open>k\<close> stands in the
  order in which the rules are visited, whatever the rules before it and after it
  return, \<open>DeriveEvent\<close> returns the events and errors of the rules before, then the
  events of \<open>r\<close> and its errors wrapped by \<open>deriveError\<close> with \<open>k\<close>, then the events
  and errors of the rules after. So no rule's failure keeps another rule of the same
  source identifier from running or drops its results. In particular, when the
  identifier has exactly two registered rules \<open>a\<close> and \<open>b\<close>, both enabled, where
  \<open>a\<close> returns an error and no events and \<open>b\<close> returns one derived event and no
  error, then in whichever of the two orders the map is visited \<open>DeriveEvent\<close> returns
  exactly one derived event, the one of \<open>b\<close>, and exactly one error, the error of
  \<open>a\<close> wrapped with the target identifier \<open>a\<close>.
\<close>

theorem DeriveEvent_independent:
  "(\<forall>k r before after.
      rules_of t (word_of_int (EventID event)) k = Some r \<and> Enabled r () \<longrightarrow>
      DeriveEvent t (before @ k # after) event h =
        (case DeriveEvent t before event h of
           (d1, e1, h1) \<Rightarrow>
             (case DeriveFunction r event h1 of
                (d, e, h2) \<Rightarrow>
                  (case DeriveEvent t after event h2 of
                     (d3, e3, h3) \<Rightarrow> (d1 @ d @ d3, e1 @ map (deriveError k) e @ e3, h3)))))
   \<and> (\<forall>m a b ruleA ruleB err de hA hB order.
        t (word_of_int (EventID event)) = Some m \<and> dom m = {a, b} \<and> a \<noteq> b
        \<and> m a = Some ruleA \<and> m b = Some ruleB \<and> Enabled ruleA () \<and> Enabled ruleB ()
        \<and> (\<forall>h. DeriveFunction ruleA event h = ([], [err], hA h))
        \<and> (\<forall>h. DeriveFunction ruleB event h = ([de h], [], hB h))
        \<and> distinct order \<and> set order = dom m \<longrightarrow>
        (order = [a, b] \<and>
           DeriveEvent t order event h = ([de (hA h)], [deriveError a err], hB (hA h)))
        \<or> (order = [b, a] \<and>
           DeriveEvent t order event h = ([de h], [deriveError a err], hA (hB h))))"
proof (intro conjI allI impI)
  fix k r before after
  assume "rules_of t (word_of_int (EventID event)) k = Some r \<and> Enabled r ()"
  then show "DeriveEvent t (before @ k # after) event h =
        (case DeriveEvent t before event h of
           (d1, e1, h1) \<Rightarrow>
             (case DeriveFunction r event h1 of
                (d, e, h2) \<Rightarrow>
                  (case DeriveEvent t after event h2 of
                     (d3, e3, h3) \<Rightarrow> (d1 @ d @ d3, e1 @ map (deriveError k) e @ e3, h3))))"
    by (simp add: DeriveEvent_step)
next
  fix m a b ruleA ruleB err de hA hB order
  assume "t (word_of_int (EventID event)) = Some m \<and> dom m = {a, b} \<and> a \<noteq> b
        \<and> m a = Some ruleA \<and> m b = Some ruleB \<and> Enabled ruleA () \<and> Enabled ruleB ()
        \<and> (\<forall>h. DeriveFunction ruleA event h = ([], [err], hA h))
        \<and> (\<forall>h. DeriveFunction ruleB event h = ([de h], [], hB h))
        \<and> distinct order \<and> set order = dom m"
  then show "(order = [a, b] \<and>
           DeriveEvent t order event h = ([de (hA h)], [deriveError a err], hB (hA h)))
        \<or> (order = [b, a] \<and>
           DeriveEvent t order event h = ([de h], [deriveError a err], hA (hB h)))"
    using DeriveEvent_two_rules [of t event m a b ruleA ruleB err hA de hB order h] by blast
qed

theorem DeriveEvent_independent_witness:
  "DeriveEvent mockDerivationTable [12, 11, 13] (getTestEvent\<lparr>EventID := 1\<rparr>) [] =
     ([getTestEvent\<lparr>EventID := 12\<rparr>], [deriveError 11 (errors_New ''derive error'')], [])
   \<and> DeriveEvent mockDerivationTable [11, 13, 12] (getTestEvent\<lparr>EventID := 1\<rparr>) [] =
     ([getTestEvent\<lparr>EventID := 12\<rparr>], [deriveError 11 (errors_New ''derive error'')], [])
   \<and> DeriveEvent two_rule_table [11, 12] (getTestEvent\<lparr>EventID := 1\<rparr>) [] =
     ([getTestEvent\<lparr>EventID := 12\<rparr>], [deriveError 11 (errors_New ''derive error'')], [])
   \<and> DeriveEvent two_rule_table [12, 11] (getTestEvent\<lparr>EventID := 1\<rparr>) [] =
     ([getTestEvent\<lparr>EventID := 12\<rparr>], [deriveError 11 (errors_New ''derive error'')], [])"
proof -
  let ?ev = "getTestEvent\<lparr>EventID := 1\<rparr>"
  let ?fail = "\<lparr>DeriveFunction = failing_derivation, Enabled = \<lambda>u. True\<rparr> :: (int, unit) rule"
  let ?derive = "\<lparr>DeriveFunction = deriving_12, Enabled = \<lambda>u. True\<rparr> :: (int, unit) rule"
  let ?m = "[11 \<mapsto> ?fail, 12 \<mapsto> ?derive] :: ID \<rightharpoonup> (int, unit) rule"
  have r: "rules_of mockDerivationTable (word_of_int (EventID ?ev)) 11 = Some ?fail
      \<and> Enabled ?fail ()"
    by (simp add: rules_of_def mockDerivationTable_def getTestEvent_def)
  have b12: "DeriveEvent mockDerivationTable [12] ?ev [] = ([getTestEvent\<lparr>EventID := 12\<rparr>], [], [])"
    by (simp add: DeriveEvent_def range_map_def List.map_filter_simps mockDerivationTable_def
        getTestEvent_def deriving_12_def)
  have b13: "DeriveEvent mockDerivationTable [13] ?ev [] = ([], [], [])"
    by (simp add: DeriveEvent_def range_map_def List.map_filter_simps mockDerivationTable_def
        getTestEvent_def no_derivation_def)
  have b0: "DeriveEvent mockDerivationTable [] ?ev [] = ([], [], [])"
    by (simp add: DeriveEvent_def range_map_def List.map_filter_simps)
  have b1312: "DeriveEvent mockDerivationTable [13, 12] ?ev [] =
      ([getTestEvent\<lparr>EventID := 12\<rparr>], [], [])"
    by (simp add: DeriveEvent_def range_map_def List.map_filter_simps mockDerivationTable_def
        getTestEvent_def deriving_12_def no_derivation_def)
  note G = DeriveEvent_independent [where t = mockDerivationTable and event = ?ev and h = "[]",
      THEN conjunct1, rule_format, OF r]
  have 1: "DeriveEvent mockDerivationTable [12, 11, 13] ?ev [] =
     ([getTestEvent\<lparr>EventID := 12\<rparr>], [deriveError 11 (errors_New ''derive error'')], [])"
    using G [of "[12]" "[13]"] by (simp add: b12 b13 failing_derivation_def)
  have 2: "DeriveEvent mockDerivationTable [11, 13, 12] ?ev [] =
     ([getTestEvent\<lparr>EventID := 12\<rparr>], [deriveError 11 (errors_New ''derive error'')], [])"
    using G [of "[]" "[13, 12]"] by (simp add: b0 b1312 failing_derivation_def)
  have "two_rule_table (word_of_int (EventID ?ev)) = Some ?m \<and> dom ?m = {11, 12}
      \<and> (11 :: ID) \<noteq> 12 \<and> ?m 11 = Some ?fail \<and> ?m 12 = Some ?derive
      \<and> Enabled ?fail () \<and> Enabled ?derive ()
      \<and> (\<forall>h. DeriveFunction ?fail ?ev h = ([], [errors_New ''derive error''], id h))
      \<and> (\<forall>h. DeriveFunction ?derive ?ev h = ([(\<lambda>h. getTestEvent\<lparr>EventID := 12\<rparr>) h], [], id h))"
    by (auto simp: two_rule_table_def getTestEvent_def failing_derivation_def deriving_12_def)
  then have hyp: "\<And>order. distinct order \<Longrightarrow> set order = dom ?m \<Longrightarrow>
      two_rule_table (word_of_int (EventID ?ev)) = Some ?m \<and> dom ?m = {11, 12}
      \<and> (11 :: ID) \<noteq> 12 \<and> ?m 11 = Some ?fail \<and> ?m 12 = Some ?derive
      \<and> Enabled ?fail () \<and> Enabled ?derive ()
      \<and> (\<forall>h. DeriveFunction ?fail ?ev h = ([], [errors_New ''derive error''], id h))
      \<and> (\<forall>h. DeriveFunction ?derive ?ev h = ([(\<lambda>h. getTestEvent\<lparr>EventID := 12\<rparr>) h], [], id h))
      \<and> distinct order \<and> set order = dom ?m"
    by blast
  note T = DeriveEvent_independent [where t = two_rule_table and event = ?ev and h = "[]",
      THEN conjunct2, rule_format,
      where m = ?m and a = 11 and b = 12 and ruleA = ?fail and ruleB = ?derive
        and err = "errors_New ''derive error''" and hA = id and hB = id
        and de = "\<lambda>h. getTestEvent\<lparr>EventID := 12\<rparr>"]
  have 3: "DeriveEvent two_rule_table [11, 12] ?ev [] =
     ([getTestEvent\<lparr>EventID := 12\<rparr>], [deriveError 11 (errors_New ''derive error'')], [])"
    using T [of "[11, 12]", OF hyp] by auto
  have 4: "DeriveEvent two_rule_table [12, 11] ?ev [] =
     ([getTestEvent\<lparr>EventID := 12\<rparr>], [deriveError 11 (errors_New ''derive error'')], [])"
    using T [of "[12, 11]", OF hyp] by auto
  from 1 2 3 4 show ?thesis by blast
qed

subsection \<open>buildDerivedEvent\<close>

lemma buildDerivedEvent_args_eq:
  "length args = length (Fields skeleton) \<Longrightarrow> i + length vals = length (Fields skeleton) \<Longrightarrow>
   buildDerivedEvent_args i vals skeleton args =
     take i args @ map2 (\<lambda>f v. \<lparr>Argument.ArgMeta = DataField.ArgMeta f, Value = v\<rparr>)
                     (drop i (Fields skeleton)) vals"
proof (induction vals arbitrary: i args)
  case Nil
  then show ?case by simp
next
  case (Cons v rest)
  let ?x = "\<lparr>Argument.ArgMeta = DataField.ArgMeta (Fields skeleton ! i), Value = v\<rparr>"
  from Cons.prems have i: "i < length (Fields skeleton)" "i < length args" by simp_all
  have "buildDerivedEvent_args (Suc i) rest skeleton (args[i := ?x]) =
      take (Suc i) (args[i := ?x]) @
      map2 (\<lambda>f v. \<lparr>Argument.ArgMeta = DataField.ArgMeta f, Value = v\<rparr>)
        (drop (Suc i) (Fields skeleton)) rest"
    using Cons.prems by (intro Cons.IH) simp_all
  moreover have "take (Suc i) (args[i := ?x]) = take i args @ [?x]"
    using i by (simp add: take_Suc_conv_app_nth)
  moreover have "drop i (Fields skeleton) = Fields skeleton ! i # drop (Suc i) (Fields skeleton)"
    using i by (simp add: Cons_nth_drop_Suc)
  ultimately show ?case by simp
qed

lemma copy_fresh: "copy (replicate (length xs) []) xs = xs"
  by (simp add: copy_def)

lemma buildDerivedEvent_mismatch:
  "length argsValues \<noteq> length (Fields skeleton) \<Longrightarrow>
   buildDerivedEvent baseEvent skeleton argsValues h =
     (Inl (unexpectedArgCountError (deriveBase.Name skeleton)
             (int (length (Fields skeleton))) (int (length argsValues))), h)"
  by (auto simp: buildDerivedEvent_def)

lemma buildDerivedEvent_match:
  assumes "length argsValues = length (Fields skeleton)"
    and "\<And>p. MatchedPolicies baseEvent = Some p \<Longrightarrow> p < length h"
  shows "buildDerivedEvent baseEvent skeleton argsValues h =
     (Inr (baseEvent
        \<lparr>EventID := deriveBase.ID skeleton, EventName := deriveBase.Name skeleton,
         ReturnValue := 0, StackAddresses := [0],
         Args := map2 (\<lambda>f v. \<lparr>Argument.ArgMeta = DataField.ArgMeta f, Value = v\<rparr>)
                   (Fields skeleton) argsValues,
         ArgsNum := int (length (Fields skeleton)),
         MatchedPolicies := map_option (\<lambda>p. length h) (MatchedPolicies baseEvent)\<rparr>),
      case MatchedPolicies baseEvent of None \<Rightarrow> h | Some p \<Rightarrow> h @ [h ! p])"
proof -
  have a: "buildDerivedEvent_args 0 argsValues skeleton
       (replicate (length (Fields skeleton))
          \<lparr>Argument.ArgMeta = \<lparr>ArgMeta.Name = [], Type = []\<rparr>, Value = None\<rparr>) =
     map2 (\<lambda>f v. \<lparr>Argument.ArgMeta = DataField.ArgMeta f, Value = v\<rparr>) (Fields skeleton) argsValues"
    using assms by (simp add: buildDerivedEvent_args_eq)
  show ?thesis
    using assms
    by (cases "MatchedPolicies baseEvent")
      (simp_all add: buildDerivedEvent_def a make_slice_def copy_fresh Let_def nth_append)
qed

lemma buildDerivedEvent_Inr:
  "length argsValues = length (Fields skeleton) \<Longrightarrow>
   \<exists>de h'. buildDerivedEvent baseEvent skeleton argsValues h = (Inr de, h')"
  by (simp add: buildDerivedEvent_def Let_def make_slice_def split: option.split)

lemma policies_of_update [simp]:
  "policies_of h (e\<lparr>MatchedPolicies := m\<rparr>) = map_option (\<lambda>p. h ! p) m"
  by (simp add: policies_of_def)

text \<open>
  C6. For every base event, and argument tuples that match their skeletons, in a store
  where the matched-policies list of the base event is allocated: \<open>buildDerivedEvent\<close>
  returns a derived event and no error. The derived event equals the base event on all
  fields but these: identifier and name are those of the skeleton, the return value is
  zero, the stack addresses are a single zero, the arguments pair the metadata of each
  field of the skeleton with the supplied value in the order of the schema, and the
  argument count is the number of fields. Its matched-policies list is equal, element by
  element, to that of the base event (and is \<open>nil\<close> when that one is), and the list of
  the base event is as it was. The same holds of a sibling event derived from the same
  base event afterwards. An assignment to an element of the list of either derived event
  changes that list, and neither the list of the base event nor that of the sibling.
\<close>

theorem buildDerivedEvent_frame:
  assumes "length argsValues = length (Fields skeleton)"
    and "length argsValues2 = length (Fields skeleton2)"
    and "\<forall>p. MatchedPolicies baseEvent = Some p \<longrightarrow> p < length h"
  shows "\<exists>de h1 de2 h2.
      buildDerivedEvent baseEvent skeleton argsValues h = (Inr de, h1)
    \<and> buildDerivedEvent baseEvent skeleton2 argsValues2 h1 = (Inr de2, h2)
    \<and> de\<lparr>MatchedPolicies := MatchedPolicies baseEvent\<rparr> =
        baseEvent\<lparr>EventID := deriveBase.ID skeleton, EventName := deriveBase.Name skeleton,
          ReturnValue := 0, StackAddresses := [0],
          Args := map2 (\<lambda>f v. \<lparr>Argument.ArgMeta = DataField.ArgMeta f, Value = v\<rparr>)
                    (Fields skeleton) argsValues,
          ArgsNum := int (length (Fields skeleton))\<rparr>
    \<and> policies_of h1 de = policies_of h baseEvent
    \<and> policies_of h1 baseEvent = policies_of h baseEvent
    \<and> policies_of h2 de2 = policies_of h baseEvent
    \<and> policies_of h2 de = policies_of h baseEvent
    \<and> policies_of h2 baseEvent = policies_of h baseEvent
    \<and> (\<forall>q i s h3. MatchedPolicies de = Some q \<and> assign h2 q i s = Return h3 \<longrightarrow>
           policies_of h3 de = map_option (\<lambda>l. l[i := s]) (policies_of h baseEvent)
         \<and> policies_of h3 de2 = policies_of h baseEvent
         \<and> policies_of h3 baseEvent = policies_of h baseEvent)
    \<and> (\<forall>q i s h3. MatchedPolicies de2 = Some q \<and> assign h2 q i s = Return h3 \<longrightarrow>
           policies_of h3 de2 = map_option (\<lambda>l. l[i := s]) (policies_of h baseEvent)
         \<and> policies_of h3 de = policies_of h baseEvent
         \<and> policies_of h3 baseEvent = policies_of h baseEvent)"
proof (cases "MatchedPolicies baseEvent")
  case None
  have 1: "buildDerivedEvent baseEvent skeleton argsValues h =
     (Inr (baseEvent
        \<lparr>EventID := deriveBase.ID skeleton, EventName := deriveBase.Name skeleton,
         ReturnValue := 0, StackAddresses := [0],
         Args := map2 (\<lambda>f v. \<lparr>Argument.ArgMeta = DataField.ArgMeta f, Value = v\<rparr>)
                   (Fields skeleton) argsValues,
         ArgsNum := int (length (Fields skeleton)),
         MatchedPolicies := None\<rparr>), h)"
    using buildDerivedEvent_match [OF assms(1), of baseEvent h] None by simp
  have 2: "buildDerivedEvent baseEvent skeleton2 argsValues2 h =
     (Inr (baseEvent
        \<lparr>EventID := deriveBase.ID skeleton2, EventName := deriveBase.Name skeleton2,
         ReturnValue := 0, StackAddresses := [0],
         Args := map2 (\<lambda>f v. \<lparr>Argument.ArgMeta = DataField.ArgMeta f, Value = v\<rparr>)
                   (Fields skeleton2) argsValues2,
         ArgsNum := int (length (Fields skeleton2)),
         MatchedPolicies := None\<rparr>), h)"
    using buildDerivedEvent_match [OF assms(2), of baseEvent h] None by simp
  show ?thesis
    using None by (simp add: 1 2 policies_of_def)
next
  case (Some p)
  with assms have p: "p < length h" by simp
  have 1: "buildDerivedEvent baseEvent skeleton argsValues h =
     (Inr (baseEvent
        \<lparr>EventID := deriveBase.ID skeleton, EventName := deriveBase.Name skeleton,
         ReturnValue := 0, StackAddresses := [0],
         Args := map2 (\<lambda>f v. \<lparr>Argument.ArgMeta = DataField.ArgMeta f, Value = v\<rparr>)
                   (Fields skeleton) argsValues,
         ArgsNum := int (length (Fields skeleton)),
         MatchedPolicies := Some (length h)\<rparr>), h @ [h ! p])"
    using buildDerivedEvent_match [OF assms(1), of baseEvent h] p Some by simp
  have 2: "buildDerivedEvent baseEvent skeleton2 argsValues2 (h @ [h ! p]) =
     (Inr (baseEvent
        \<lparr>EventID := deriveBase.ID skeleton2, EventName := deriveBase.Name skeleton2,
         ReturnValue := 0, StackAddresses := [0],
         Args := map2 (\<lambda>f v. \<lparr>Argument.ArgMeta = DataField.ArgMeta f, Value = v\<rparr>)
                   (Fields skeleton2) argsValues2,
         ArgsNum := int (length (Fields skeleton2)),
         MatchedPolicies := Some (Suc (length h))\<rparr>), h @ [h ! p, h ! p])"
    using buildDerivedEvent_match [OF assms(2), of baseEvent "h @ [h ! p]"] p Some
    by (simp add: nth_append)
  show ?thesis
    using p Some
    by (simp add: 1 2 policies_of_def assign_def nth_append list_update_append split: if_splits)
qed

theorem buildDerivedEvent_frame_witness:
  "buildDerivedEvent (getTestEvent\<lparr>MatchedPolicies := Some 0\<rparr>) skeleton_124 [Some 1, Some 2]
      [[''policy1'', ''policy2'']] =
     (Inr (getTestEvent\<lparr>EventID := 124, EventName := ''test_derive'', ReturnValue := 0,
         StackAddresses := [0],
         Args := [\<lparr>Argument.ArgMeta = \<lparr>ArgMeta.Name = ''arg1'', Type = ''int''\<rparr>, Value = Some 1\<rparr>,
                  \<lparr>Argument.ArgMeta = \<lparr>ArgMeta.Name = ''arg2'', Type = ''string''\<rparr>, Value = Some 2\<rparr>],
         ArgsNum := 2, MatchedPolicies := Some 1\<rparr>),
      [[''policy1'', ''policy2''], [''policy1'', ''policy2'']])
   \<and> buildDerivedEvent (getTestEvent\<lparr>MatchedPolicies := Some 0\<rparr>) skeleton_124 [Some 3, Some 4]
      [[''policy1'', ''policy2''], [''policy1'', ''policy2'']] =
     (Inr (getTestEvent\<lparr>EventID := 124, EventName := ''test_derive'', ReturnValue := 0,
         StackAddresses := [0],
         Args := [\<lparr>Argument.ArgMeta = \<lparr>ArgMeta.Name = ''arg1'', Type = ''int''\<rparr>, Value = Some 3\<rparr>,
                  \<lparr>Argument.ArgMeta = \<lparr>ArgMeta.Name = ''arg2'', Type = ''string''\<rparr>, Value = Some 4\<rparr>],
         ArgsNum := 2, MatchedPolicies := Some 2\<rparr>),
      [[''policy1'', ''policy2''], [''policy1'', ''policy2''], [''policy1'', ''policy2'']])
   \<and> assign [[''policy1'', ''policy2''], [''policy1'', ''policy2''], [''policy1'', ''policy2'']]
        1 0 ''changed'' =
      Return [[''policy1'', ''policy2''], [''changed'', ''policy2''], [''policy1'', ''policy2'']]
   \<and> policies_of [[''policy1'', ''policy2''], [''changed'', ''policy2''], [''policy1'', ''policy2'']]
        (getTestEvent\<lparr>MatchedPolicies := Some 1\<rparr>) = Some [''changed'', ''policy2'']
   \<and> policies_of [[''policy1'', ''policy2''], [''changed'', ''policy2''], [''policy1'', ''policy2'']]
        (getTestEvent\<lparr>MatchedPolicies := Some 2\<rparr>) = Some [''policy1'', ''policy2'']
   \<and> policies_of [[''policy1'', ''policy2''], [''changed'', ''policy2''], [''policy1'', ''policy2'']]
        (getTestEvent\<lparr>MatchedPolicies := Some 0\<rparr>) = Some [''policy1'', ''policy2'']"
proof -
  let ?b = "getTestEvent\<lparr>MatchedPolicies := Some 0\<rparr>"
  let ?h = "[[''policy1'', ''policy2'']]"
  let ?h1 = "[[''policy1'', ''policy2''], [''policy1'', ''policy2'']]"
  let ?h2 = "[[''policy1'', ''policy2''], [''policy1'', ''policy2''], [''policy1'', ''policy2'']]"
  let ?h3 = "[[''policy1'', ''policy2''], [''changed'', ''policy2''], [''policy1'', ''policy2'']]"
  let ?d1 = "getTestEvent\<lparr>EventID := 124, EventName := ''test_derive'', ReturnValue := 0,
         StackAddresses := [0],
         Args := [\<lparr>Argument.ArgMeta = \<lparr>ArgMeta.Name = ''arg1'', Type = ''int''\<rparr>, Value = Some 1\<rparr>,
                  \<lparr>Argument.ArgMeta = \<lparr>ArgMeta.Name = ''arg2'', Type = ''string''\<rparr>, Value = Some 2\<rparr>],
         ArgsNum := 2, MatchedPolicies := Some 1\<rparr>"
  let ?d2 = "getTestEvent\<lparr>EventID := 124, EventName := ''test_derive'', ReturnValue := 0,
         StackAddresses := [0],
         Args := [\<lparr>Argument.ArgMeta = \<lparr>ArgMeta.Name = ''arg1'', Type = ''int''\<rparr>, Value = Some 3\<rparr>,
                  \<lparr>Argument.ArgMeta = \<lparr>ArgMeta.Name = ''arg2'', Type = ''string''\<rparr>, Value = Some 4\<rparr>],
         ArgsNum := 2, MatchedPolicies := Some 2\<rparr>"
  have a: "length [Some 1, Some (2::int)] = length (Fields skeleton_124)"
    by (simp add: skeleton_124_def)
  have b: "length [Some 3, Some (4::int)] = length (Fields skeleton_124)"
    by (simp add: skeleton_124_def)
  have c: "\<forall>p. MatchedPolicies ?b = Some p \<longrightarrow> p < length ?h"
    by simp
  have e1: "buildDerivedEvent ?b skeleton_124 [Some 1, Some 2] ?h = (Inr ?d1, ?h1)"
    by (simp add: buildDerivedEvent_def skeleton_124_def getTestEvent_def make_slice_def
        copy_def Let_def)
  have e2: "buildDerivedEvent ?b skeleton_124 [Some 3, Some 4] ?h1 = (Inr ?d2, ?h2)"
    by (simp add: buildDerivedEvent_def skeleton_124_def getTestEvent_def make_slice_def
        copy_def Let_def)
  have e3: "assign ?h2 1 0 ''changed'' = Return ?h3"
    by (simp add: assign_def)
  from buildDerivedEvent_frame [OF a b c]
  obtain de h1 de2 h2 where
    1: "buildDerivedEvent ?b skeleton_124 [Some 1, Some 2] ?h = (Inr de, h1)" and
    2: "buildDerivedEvent ?b skeleton_124 [Some 3, Some 4] h1 = (Inr de2, h2)" and
    3: "\<forall>q i s h3. MatchedPolicies de = Some q \<and> assign h2 q i s = Return h3 \<longrightarrow>
           policies_of h3 de = map_option (\<lambda>l. l[i := s]) (policies_of ?h ?b)
         \<and> policies_of h3 de2 = policies_of ?h ?b
         \<and> policies_of h3 ?b = policies_of ?h ?b"
    by blast
  from 1 e1 have d1: "de = ?d1" "h1 = ?h1" by simp_all
  from 2 e2 d1 have d2: "de2 = ?d2" "h2 = ?h2" by simp_all
  have m: "MatchedPolicies ?d1 = Some 1" by simp
  from 3 [rule_format, of 1 0 "''changed''" ?h3] m e3
  have "policies_of ?h3 ?d1 = map_option (\<lambda>l. l[0 := ''changed'']) (policies_of ?h ?b)
         \<and> policies_of ?h3 ?d2 = policies_of ?h ?b
         \<and> policies_of ?h3 ?b = policies_of ?h ?b"
    unfolding d1 d2 by blast
  then have "policies_of ?h3 (getTestEvent\<lparr>MatchedPolicies := Some 1\<rparr>) = Some [''changed'', ''policy2'']
     \<and> policies_of ?h3 (getTestEvent\<lparr>MatchedPolicies := Some 2\<rparr>) = Some [''policy1'', ''policy2'']
     \<and> policies_of ?h3 ?b = Some [''policy1'', ''policy2'']"
    by (simp add: policies_of_def)
  with e1 e2 e3 show ?thesis by blast
qed

subsection \<open>deriveMultipleEvents\<close>

lemma deriveMultipleEvents_loop_append:
  "deriveMultipleEvents_loop (xs @ ys) event skeleton ds es h =
     (case deriveMultipleEvents_loop xs event skeleton ds es h of
        (ds1, es1, h1) \<Rightarrow> deriveMultipleEvents_loop ys event skeleton ds1 es1 h1)"
  by (induction xs arbitrary: ds es h) (auto split: prod.splits sum.splits)

lemma deriveMultipleEvents_loop_mismatch:
  assumes "length bad \<noteq> length (Fields skeleton)"
  shows "deriveMultipleEvents_loop (before @ bad # after) event skeleton ds es h =
     (case deriveMultipleEvents_loop before event skeleton ds es h of
        (ds1, es1, h1) \<Rightarrow>
          deriveMultipleEvents_loop after event skeleton ds1
            (es1 @ [unexpectedArgCountError (deriveBase.Name skeleton)
                      (int (length (Fields skeleton))) (int (length bad))]) h1)"
  using assms
  by (simp add: deriveMultipleEvents_loop_append buildDerivedEvent_mismatch split: prod.splits)

lemma deriveMultipleEvents_two_tuples:
  assumes "multiDeriveArgsFunc event = (Some tuples, errs)"
    and "tuples = [good, bad] \<or> tuples = [bad, good]"
    and "length good = length (GetFields (getEventDefinition id'))"
    and "length bad \<noteq> length (GetFields (getEventDefinition id'))"
  shows "\<exists>de h'.
      buildDerivedEvent event (makeDeriveBase getEventDefinition id') good h = (Inr de, h')
    \<and> deriveMultipleEvents getEventDefinition id' multiDeriveArgsFunc event h =
        ([de],
         errs @ [unexpectedArgCountError (GetName (getEventDefinition id'))
                   (int (length (GetFields (getEventDefinition id')))) (int (length bad))],
         h')"
proof -
  let ?sk = "makeDeriveBase getEventDefinition id'"
  have f: "Fields ?sk = GetFields (getEventDefinition id')"
    and n: "deriveBase.Name ?sk = GetName (getEventDefinition id')"
    by (simp_all add: makeDeriveBase_def Let_def)
  from assms(3) f obtain de h' where g: "buildDerivedEvent event ?sk good h = (Inr de, h')"
    using buildDerivedEvent_Inr [of good ?sk event h] by auto
  have b: "\<And>h. buildDerivedEvent event ?sk bad h =
      (Inl (unexpectedArgCountError (GetName (getEventDefinition id'))
             (int (length (GetFields (getEventDefinition id')))) (int (length bad))), h)"
    using assms(4) f n buildDerivedEvent_mismatch [of bad ?sk event] by simp
  from assms(2) have "deriveMultipleEvents_loop tuples event ?sk [] errs h =
        ([de],
         errs @ [unexpectedArgCountError (GetName (getEventDefinition id'))
                   (int (length (GetFields (getEventDefinition id')))) (int (length bad))],
         h')"
    by (auto simp: g b)
  with assms(1) g show ?thesis
    by (simp add: deriveMultipleEvents_def Let_def)
qed

text \<open>
  C5. Take a tuple \<open>good\<close> whose length is the field count of the target definition
  and a tuple \<open>bad\<close> whose length differs from it. For every rule invocation whose
  argument function returns the two, in either order, the derivation returns exactly one
  derived event, the one that \<open>buildDerivedEvent\<close> builds from \<open>good\<close>, and, after the
  errors of the argument function, exactly one \<open>unexpectedArgCountError\<close> of the name
  of the definition, its field count and the length of \<open>bad\<close>. Among any other tuples,
  \<open>bad\<close> adds that one error and no event, leaves the store as it is, and the tuples
  before it and after it are processed as they are without it. And when such a rule is
  registered and enabled in a table, \<open>DeriveEvent\<close> returns the results of the rules
  visited before it, then its one event and its wrapped errors, then the results of the
  rules visited after it: the mismatch stops neither the other tuples nor the other
  rules.
\<close>

theorem deriveMultipleEvents_isolation:
  assumes "multiDeriveArgsFunc event = (Some tuples, errs)"
    and "tuples = [good, bad] \<or> tuples = [bad, good]"
    and "length good = length (GetFields (getEventDefinition id'))"
    and "length bad \<noteq> length (GetFields (getEventDefinition id'))"
  shows "(\<exists>de h'.
        buildDerivedEvent event (makeDeriveBase getEventDefinition id') good h = (Inr de, h')
      \<and> deriveMultipleEvents getEventDefinition id' multiDeriveArgsFunc event h =
          ([de],
           errs @ [unexpectedArgCountError (GetName (getEventDefinition id'))
                     (int (length (GetFields (getEventDefinition id')))) (int (length bad))],
           h'))
    \<and> deriveMultipleEvents_loop (before @ bad # after) event
          (makeDeriveBase getEventDefinition id') ds es h =
        (case deriveMultipleEvents_loop before event (makeDeriveBase getEventDefinition id') ds es h of
           (ds1, es1, h1) \<Rightarrow>
             deriveMultipleEvents_loop after event (makeDeriveBase getEventDefinition id') ds1
               (es1 @ [unexpectedArgCountError (GetName (getEventDefinition id'))
                         (int (length (GetFields (getEventDefinition id')))) (int (length bad))])
               h1)
    \<and> (rules_of t (word_of_int (EventID event)) k = Some r \<and> Enabled r ()
         \<and> DeriveFunction r = deriveMultipleEvents getEventDefinition id' multiDeriveArgsFunc \<longrightarrow>
        (\<exists>d1 e1 h1 de h2 d3 e3 h3.
            DeriveEvent t rules_before event h = (d1, e1, h1)
          \<and> buildDerivedEvent event (makeDeriveBase getEventDefinition id') good h1 = (Inr de, h2)
          \<and> DeriveEvent t rules_after event h2 = (d3, e3, h3)
          \<and> DeriveEvent t (rules_before @ k # rules_after) event h =
              (d1 @ [de] @ d3,
               e1 @ map (deriveError k)
                      (errs @ [unexpectedArgCountError (GetName (getEventDefinition id'))
                                 (int (length (GetFields (getEventDefinition id'))))
                                 (int (length bad))]) @ e3,
               h3)))"
proof (intro conjI impI)
  show "\<exists>de h'.
        buildDerivedEvent event (makeDeriveBase getEventDefinition id') good h = (Inr de, h')
      \<and> deriveMultipleEvents getEventDefinition id' multiDeriveArgsFunc event h =
          ([de],
           errs @ [unexpectedArgCountError (GetName (getEventDefinition id'))
                     (int (length (GetFields (getEventDefinition id')))) (int (length bad))],
           h')"
    using assms by (rule deriveMultipleEvents_two_tuples)
next
  have "length bad \<noteq> length (Fields (makeDeriveBase getEventDefinition id'))"
    using assms(4) by (simp add: makeDeriveBase_def Let_def)
  from deriveMultipleEvents_loop_mismatch [OF this, of before after event ds es h]
  show "deriveMultipleEvents_loop (before @ bad # after) event
          (makeDeriveBase getEventDefinition id') ds es h =
        (case deriveMultipleEvents_loop before event (makeDeriveBase getEventDefinition id') ds es h of
           (ds1, es1, h1) \<Rightarrow>
             deriveMultipleEvents_loop after event (makeDeriveBase getEventDefinition id') ds1
               (es1 @ [unexpectedArgCountError (GetName (getEventDefinition id'))
                         (int (length (GetFields (getEventDefinition id')))) (int (length bad))])
               h1)"
    by (simp add: makeDeriveBase_def Let_def)
next
  assume a: "rules_of t (word_of_int (EventID event)) k = Some r \<and> Enabled r ()
         \<and> DeriveFunction r = deriveMultipleEvents getEventDefinition id' multiDeriveArgsFunc"
  obtain d1 e1 h1 where 1: "DeriveEvent t rules_before event h = (d1, e1, h1)"
    by (cases "DeriveEvent t rules_before event h") auto
  from deriveMultipleEvents_two_tuples [where multiDeriveArgsFunc = multiDeriveArgsFunc
      and event = event and getEventDefinition = getEventDefinition and id' = id'
      and h = h1, OF assms]
  obtain de h2 where
    2: "buildDerivedEvent event (makeDeriveBase getEventDefinition id') good h1 = (Inr de, h2)"
    and 3: "deriveMultipleEvents getEventDefinition id' multiDeriveArgsFunc event h1 =
        ([de],
         errs @ [unexpectedArgCountError (GetName (getEventDefinition id'))
                   (int (length (GetFields (getEventDefinition id')))) (int (length bad))],
         h2)"
    by blast
  obtain d3 e3 h3 where 4: "DeriveEvent t rules_after event h2 = (d3, e3, h3)"
    by (cases "DeriveEvent t rules_after event h2") auto
  from a have "DeriveEvent t (rules_before @ k # rules_after) event h =
              (d1 @ [de] @ d3,
               e1 @ map (deriveError k)
                      (errs @ [unexpectedArgCountError (GetName (getEventDefinition id'))
                                 (int (length (GetFields (getEventDefinition id'))))
                                 (int (length bad))]) @ e3,
               h3)"
    by (simp add: DeriveEvent_step [of t event k r] 1 3 4)
  with 1 2 4 show "\<exists>d1 e1 h1 de h2 d3 e3 h3.
            DeriveEvent t rules_before event h = (d1, e1, h1)
          \<and> buildDerivedEvent event (makeDeriveBase getEventDefinition id') good h1 = (Inr de, h2)
          \<and> DeriveEvent t rules_after event h2 = (d3, e3, h3)
          \<and> DeriveEvent t (rules_before @ k # rules_after) event h =
              (d1 @ [de] @ d3,
               e1 @ map (deriveError k)
                      (errs @ [unexpectedArgCountError (GetName (getEventDefinition id'))
                                 (int (length (GetFields (getEventDefinition id'))))
                                 (int (length bad))]) @ e3,
               h3)"
    by blast
qed

theorem deriveMultipleEvents_isolation_witness:
  "deriveMultipleEvents (\<lambda>i. eventDefinition) 0 illegalDeriveEventArgs getTestEvent [] =
     ([derived_test_event 1 2], [unexpectedArgCountError ''test_event'' 2 3], [])
   \<and> deriveMultipleEvents_loop [[Some 1, Some 2], [Some 1, Some 2, Some 3], [Some 3, Some 4]]
        getTestEvent (makeDeriveBase (\<lambda>i. eventDefinition) 0) [] [] [] =
     ([derived_test_event 1 2, derived_test_event 3 4],
      [unexpectedArgCountError ''test_event'' 2 3], [])
   \<and> DeriveEvent illegal_args_table [20, 12] getTestEvent [] =
     ([derived_test_event 1 2, getTestEvent\<lparr>EventID := 12\<rparr>],
      [deriveError 20 (unexpectedArgCountError ''test_event'' 2 3)], [])"
proof -
  let ?gd = "\<lambda>i :: ID. eventDefinition"
  let ?sk = "makeDeriveBase ?gd 0"
  let ?good = "[Some 1, Some (2::int)]"
  let ?bad = "[Some 1, Some 2, Some (3::int)]"
  let ?r = "\<lparr>DeriveFunction = deriveMultipleEvents ?gd 0 illegalDeriveEventArgs,
             Enabled = \<lambda>u. True\<rparr> :: (int, unit) rule"
  have a: "illegalDeriveEventArgs getTestEvent = (Some [?bad, ?good], [])"
    by (simp add: illegalDeriveEventArgs_def)
  have b: "[?bad, ?good] = [?good, ?bad] \<or> [?bad, ?good] = [?bad, ?good]"
    by simp
  have c: "length ?good = length (GetFields (?gd 0))"
    by (simp add: eventDefinition_def)
  have d: "length ?bad \<noteq> length (GetFields (?gd 0))"
    by (simp add: eventDefinition_def)
  have e: "\<And>x y. buildDerivedEvent getTestEvent ?sk [Some x, Some y] [] =
      (Inr (derived_test_event x y), [])"
    by (simp add: buildDerivedEvent_def makeDeriveBase_def eventDefinition_def getTestEvent_def
        derived_test_event_def Let_def)
  have n: "GetName eventDefinition = ''test_event''" "length (GetFields eventDefinition) = 2"
    by (simp_all add: eventDefinition_def)
  have hr: "rules_of illegal_args_table (word_of_int (EventID getTestEvent)) 20 = Some ?r
      \<and> Enabled ?r ()
      \<and> DeriveFunction ?r = deriveMultipleEvents ?gd 0 illegalDeriveEventArgs"
    by (simp add: rules_of_def illegal_args_table_def getTestEvent_def)
  note T = deriveMultipleEvents_isolation [where multiDeriveArgsFunc = illegalDeriveEventArgs
      and event = getTestEvent and getEventDefinition = ?gd and id' = 0 and h = "[]"
      and before = "[?good]" and after = "[[Some 3, Some 4]]" and ds = "[]" and es = "[]"
      and t = illegal_args_table and k = 20 and r = ?r
      and rules_before = "[]" and rules_after = "[12]", OF a b c d]
  from T [THEN conjunct1] obtain de h' where
    "buildDerivedEvent getTestEvent ?sk ?good [] = (Inr de, h')"
    and "deriveMultipleEvents ?gd 0 illegalDeriveEventArgs getTestEvent [] =
       ([de], [] @ [unexpectedArgCountError (GetName eventDefinition)
                     (int (length (GetFields eventDefinition))) (int (length ?bad))], h')"
    by blast
  then have 1: "deriveMultipleEvents ?gd 0 illegalDeriveEventArgs getTestEvent [] =
     ([derived_test_event 1 2], [unexpectedArgCountError ''test_event'' 2 3], [])"
    by (simp add: e n)
  have l0: "deriveMultipleEvents_loop [?good] getTestEvent ?sk [] [] [] =
      ([derived_test_event 1 2], [], [])"
    by (simp add: e)
  from T [THEN conjunct2, THEN conjunct1]
  have 2: "deriveMultipleEvents_loop [?good, ?bad, [Some 3, Some 4]] getTestEvent ?sk [] [] [] =
     ([derived_test_event 1 2, derived_test_event 3 4],
      [unexpectedArgCountError ''test_event'' 2 3], [])"
    by (simp add: l0 e n)
  have b0: "DeriveEvent illegal_args_table [] getTestEvent [] = ([], [], [])"
    by (simp add: DeriveEvent_def range_map_def List.map_filter_simps)
  have b12: "DeriveEvent illegal_args_table [12] getTestEvent [] =
      ([getTestEvent\<lparr>EventID := 12\<rparr>], [], [])"
    by (simp add: DeriveEvent_def range_map_def List.map_filter_simps illegal_args_table_def
        getTestEvent_def deriving_12_def)
  from T [THEN conjunct2, THEN conjunct2, rule_format, OF hr]
  obtain d1 e1 h1 de h2 d3 e3 h3 where
    "DeriveEvent illegal_args_table [] getTestEvent [] = (d1, e1, h1)"
    and "buildDerivedEvent getTestEvent ?sk ?good h1 = (Inr de, h2)"
    and "DeriveEvent illegal_args_table [12] getTestEvent h2 = (d3, e3, h3)"
    and "DeriveEvent illegal_args_table ([] @ 20 # [12]) getTestEvent [] =
        (d1 @ [de] @ d3,
         e1 @ map (deriveError 20)
                ([] @ [unexpectedArgCountError (GetName eventDefinition)
                         (int (length (GetFields eventDefinition))) (int (length ?bad))]) @ e3,
         h3)"
    by blast
  then have 3: "DeriveEvent illegal_args_table [20, 12] getTestEvent [] =
     ([derived_test_event 1 2, getTestEvent\<lparr>EventID := 12\<rparr>],
      [deriveError 20 (unexpectedArgCountError ''test_event'' 2 3)], [])"
    by (simp add: b0 e b12 n)
  from 1 2 3 show ?thesis by blast
qed

section \<open>Properties of the argument assembly\<close>

lemma place_Nil [simp]: "place args [] = args"
  by (simp add: place_def)

lemma place_Cons [simp]: "place args ((idx, arg, err) # rs) = place (args[idx := arg]) rs"
  by (simp add: place_def)

lemma length_place [simp]: "length (place args rs) = length args"
  by (induction rs arbitrary: args) auto

lemma place_other: "i \<notin> fst ` set rs \<Longrightarrow> place args rs ! i = args ! i"
  by (induction rs arbitrary: args) auto

lemma place_supplied:
  "distinct (map fst rs) \<Longrightarrow> (idx, arg, err) \<in> set rs \<Longrightarrow> idx < length args \<Longrightarrow>
   place args rs ! idx = arg"
proof (induction rs arbitrary: args)
  case Nil
  then show ?case by simp
next
  case (Cons r rs)
  obtain i a e where r: "r = (i, a, e)" by (cases r)
  show ?case
  proof (cases "(idx, arg, err) = r")
    case True
    with Cons.prems r have "idx \<notin> fst ` set rs" by auto
    with True r Cons.prems show ?thesis by (simp add: place_other)
  next
    case False
    with Cons.prems r have "(idx, arg, err) \<in> set rs" by auto
    with Cons r show ?thesis by simp
  qed
qed

lemma index_nat: "i < length xs \<Longrightarrow> index xs (int i) = Return (xs ! i)"
  by (simp add: index_def)

lemma DecodeArguments_read_loop:
  assumes "\<forall>(idx, arg, err) \<in> set (reads r e fs d n).
             err = None \<and> idx < length args \<and> Value (args ! idx) = None"
    and "distinct (map fst (reads r e fs d n))"
  shows "\<exists>d'. DecodeArguments_read r (int k) (int (k + n)) d args fs name e log =
           Return (d', place args (reads r e fs d n), log)"
  using assms
proof (induction n arbitrary: k d args)
  case 0
  show ?case by (subst DecodeArguments_read.simps) simp
next
  case (Suc n)
  obtain d1 idx arg err where rd: "r e d fs = (d1, idx, arg, err)"
    by (cases "r e d fs") auto
  with Suc.prems have err: "err = None" and idx: "idx < length args"
    and v: "Value (args ! idx) = None" and nin: "idx \<notin> fst ` set (reads r e fs d1 n)"
    and dist: "distinct (map fst (reads r e fs d1 n))"
    by auto
  have "\<forall>(i, a, er) \<in> set (reads r e fs d1 n).
           er = None \<and> i < length (args[idx := arg]) \<and> Value (args[idx := arg] ! i) = None"
  proof (clarify, intro conjI)
    fix i a er assume m: "(i, a, er) \<in> set (reads r e fs d1 n)"
    with Suc.prems(1) rd show "er = None" by auto
    from m Suc.prems(1) rd show "i < length (args[idx := arg])" by auto
    from m nin have "i \<noteq> idx" by force
    moreover from m Suc.prems(1) rd have "Value (args ! i) = None" by auto
    ultimately show "Value (args[idx := arg] ! i) = None" by simp
  qed
  from Suc.IH [OF this dist, of "Suc k"]
  obtain d' where
    "DecodeArguments_read r (int (Suc k)) (int (Suc k + n)) d1 (args[idx := arg]) fs name e log =
       Return (d', place (args[idx := arg]) (reads r e fs d1 n), log)"
    by blast
  then show ?case
    using rd err idx v
    by (subst DecodeArguments_read.simps) (simp add: index_nat add.commute)
qed

lemma Argument_overwrite:
  "(a :: 'v Argument)\<lparr>Argument.ArgMeta := m, Value := v\<rparr> = \<lparr>Argument.ArgMeta = m, Value = v\<rparr>"
  by (cases a) simp

lemma DecodeArguments_fill_loop:
  assumes "length args = length fs" "i + n = length fs"
  shows "\<exists>args'. DecodeArguments_fill (int i) fs args = Return args'
     \<and> length args' = length fs
     \<and> (\<forall>j < length fs. args' ! j =
           (if i \<le> j \<and> Value (args ! j) = None then zero_arg (fs ! j) else args ! j))"
  using assms
proof (induction n arbitrary: i args)
  case 0
  then show ?case by (subst DecodeArguments_fill.simps) simp
next
  case (Suc n)
  then have i: "i < length fs" "i < length args" by simp_all
  show ?case
  proof (cases "Value (args ! i) = None")
    case True
    let ?args = "args[i := zero_arg (fs ! i)]"
    from Suc.prems have "length ?args = length fs" "Suc i + n = length fs" by simp_all
    from Suc.IH [OF this] obtain args' where
      r: "DecodeArguments_fill (int (Suc i)) fs ?args = Return args'"
      and l: "length args' = length fs"
      and n: "\<forall>j < length fs. args' ! j =
           (if Suc i \<le> j \<and> Value (?args ! j) = None then zero_arg (fs ! j) else ?args ! j)"
      by blast
    have "DecodeArguments_fill (int i) fs args = Return args'"
      using r i True
      by (subst DecodeArguments_fill.simps) (simp add: index_nat zero_arg_def add.commute Argument_overwrite)
    moreover have "\<forall>j < length fs. args' ! j =
           (if i \<le> j \<and> Value (args ! j) = None then zero_arg (fs ! j) else args ! j)"
      using n i True by (auto simp: nth_list_update)
    ultimately show ?thesis using l by blast
  next
    case False
    from Suc.prems have "length args = length fs" "Suc i + n = length fs" by simp_all
    from Suc.IH [OF this] obtain args' where
      r: "DecodeArguments_fill (int (Suc i)) fs args = Return args'"
      and l: "length args' = length fs"
      and n: "\<forall>j < length fs. args' ! j =
           (if Suc i \<le> j \<and> Value (args ! j) = None then zero_arg (fs ! j) else args ! j)"
      by blast
    have "DecodeArguments_fill (int i) fs args = Return args'"
      using r i False
      by (subst DecodeArguments_fill.simps) (auto simp: index_nat add.commute)
    moreover have "\<forall>j < length fs. args' ! j =
           (if i \<le> j \<and> Value (args ! j) = None then zero_arg (fs ! j) else args ! j)"
      using n i False by (auto simp: le_eq_less_or_eq Suc_le_eq)
    ultimately show ?thesis using l by blast
  qed
qed

text \<open>
  C4. For every schema of \<open>N\<close> fields, an argument array of length \<open>N\<close> whose values
  are all \<open>nil\<close>, and a stream whose \<open>M\<close> reads succeed, each with a value that is
  not \<open>nil\<close> and with a valid schema index, the indices distinct: \<open>DecodeArguments\<close>
  with argument count \<open>M\<close> returns no error, logs nothing, and leaves an argument list of
  length \<open>N\<close> in which every supplied index holds the argument that was read for it and
  every other index holds the metadata and the zero value that the schema declares for
  that field, in the order of the schema. When every field declares a zero value that
  is not \<open>nil\<close>, no slot is left without a value.
\<close>

theorem DecodeArguments_complete:
  assumes len: "length args = length evtFields"
    and empty: "\<forall>a \<in> set args. Value a = None"
    and rs: "reads readArgFromBuff eventId evtFields decoder M = rs"
    and ok: "\<forall>(idx, arg, err) \<in> set rs. err = None \<and> idx < length evtFields \<and> Value arg \<noteq> None"
    and dist: "distinct (map fst rs)"
  shows "\<exists>decoder' args'.
      DecodeArguments readArgFromBuff decoder args (int M) evtFields evtName eventId =
        Return (decoder', args', [], None)
    \<and> length args' = length evtFields
    \<and> (\<forall>(idx, arg, err) \<in> set rs. args' ! idx = arg)
    \<and> (\<forall>i < length evtFields. i \<notin> fst ` set rs \<longrightarrow>
           args' ! i = \<lparr>Argument.ArgMeta = DataField.ArgMeta (evtFields ! i),
                        Value = Zero (evtFields ! i)\<rparr>)
    \<and> ((\<forall>f \<in> set evtFields. Zero f \<noteq> None) \<longrightarrow> (\<forall>a \<in> set args'. Value a \<noteq> None))"
proof -
  have "\<forall>(idx, arg, err) \<in> set (reads readArgFromBuff eventId evtFields decoder M).
          err = None \<and> idx < length args \<and> Value (args ! idx) = None"
    using ok empty len rs by (auto simp: all_set_conv_all_nth)
  from DecodeArguments_read_loop [OF this, of 0 evtName "[]"] dist rs
  obtain d' where rd: "DecodeArguments_read readArgFromBuff 0 (int M) decoder args evtFields
      evtName eventId [] = Return (d', place args rs, [])"
    by auto
  from DecodeArguments_fill_loop [of "place args rs" evtFields 0 "length evtFields"] len
  obtain args' where fl: "DecodeArguments_fill 0 evtFields (place args rs) = Return args'"
    and l: "length args' = length evtFields"
    and n: "\<forall>j < length evtFields. args' ! j =
           (if Value (place args rs ! j) = None then zero_arg (evtFields ! j) else place args rs ! j)"
    by auto
  have 1: "DecodeArguments readArgFromBuff decoder args (int M) evtFields evtName eventId =
        Return (d', args', [], None)"
    by (simp add: DecodeArguments_def rd fl)
  have 2: "\<forall>(idx, arg, err) \<in> set rs. args' ! idx = arg"
  proof clarify
    fix idx arg err assume m: "(idx, arg, err) \<in> set rs"
    with ok have i: "idx < length evtFields" and v: "Value arg \<noteq> None" by auto
    from place_supplied [OF dist m] i len have "place args rs ! idx = arg" by simp
    with n i v show "args' ! idx = arg" by auto
  qed
  have 3: "\<forall>i < length evtFields. i \<notin> fst ` set rs \<longrightarrow>
           args' ! i = \<lparr>Argument.ArgMeta = DataField.ArgMeta (evtFields ! i),
                        Value = Zero (evtFields ! i)\<rparr>"
  proof (intro allI impI)
    fix i assume i: "i < length evtFields" and "i \<notin> fst ` set rs"
    then have "place args rs ! i = args ! i" by (simp add: place_other)
    moreover from i len empty have "Value (args ! i) = None" by simp
    ultimately show "args' ! i = \<lparr>Argument.ArgMeta = DataField.ArgMeta (evtFields ! i),
                        Value = Zero (evtFields ! i)\<rparr>"
      using n i by (simp add: zero_arg_def)
  qed
  have 4: "(\<forall>f \<in> set evtFields. Zero f \<noteq> None) \<longrightarrow> (\<forall>a \<in> set args'. Value a \<noteq> None)"
  proof (intro impI)
    assume z: "\<forall>f \<in> set evtFields. Zero f \<noteq> None"
    have "\<forall>j < length args'. Value (args' ! j) \<noteq> None"
    proof (intro allI impI)
      fix j assume "j < length args'"
      with l have j: "j < length evtFields" by simp
      with z have "Zero (evtFields ! j) \<noteq> None" by simp
      with n j show "Value (args' ! j) \<noteq> None" by (auto simp: zero_arg_def)
    qed
    then show "\<forall>a \<in> set args'. Value a \<noteq> None"
      by (simp add: all_set_conv_all_nth)
  qed
  from 1 l 2 3 4 show ?thesis by blast
qed

theorem DecodeArguments_complete_witness:
  "\<exists>decoder'.
     DecodeArguments readArg_stub \<lparr>buffer = [2, 0], cursor = 0\<rparr> (replicate 3 empty_Argument) 2
       three_fields ''open'' 7 =
     Return (decoder',
       [\<lparr>Argument.ArgMeta = \<lparr>ArgMeta.Name = ''fd'', Type = ''int''\<rparr>, Value = Some 100\<rparr>,
        \<lparr>Argument.ArgMeta = \<lparr>ArgMeta.Name = ''flags'', Type = ''int''\<rparr>, Value = Some 0\<rparr>,
        \<lparr>Argument.ArgMeta = \<lparr>ArgMeta.Name = ''mode'', Type = ''int''\<rparr>, Value = Some 102\<rparr>],
       [], None)"
proof -
  let ?d = "\<lparr>buffer = [2, 0], cursor = 0\<rparr>"
  let ?a0 = "\<lparr>Argument.ArgMeta = \<lparr>ArgMeta.Name = ''fd'', Type = ''int''\<rparr>, Value = Some (100::int)\<rparr>"
  let ?a1 = "\<lparr>Argument.ArgMeta = \<lparr>ArgMeta.Name = ''flags'', Type = ''int''\<rparr>, Value = Some (0::int)\<rparr>"
  let ?a2 = "\<lparr>Argument.ArgMeta = \<lparr>ArgMeta.Name = ''mode'', Type = ''int''\<rparr>, Value = Some (102::int)\<rparr>"
  let ?rs = "[(2 :: nat, ?a2, None), (0, ?a0, None :: string option)]"
  have a: "length (replicate 3 (empty_Argument :: int Argument)) = length three_fields"
    by (simp add: three_fields_def)
  have b: "\<forall>a \<in> set (replicate 3 (empty_Argument :: int Argument)). Value a = None"
    by (simp add: empty_Argument_def)
  have "reads readArg_stub 7 three_fields ?d (Suc (Suc 0)) = ?rs"
    by (simp add: readArg_stub_def three_fields_def Let_def)
  then have c: "reads readArg_stub 7 three_fields ?d 2 = ?rs"
    by (simp only: numeral_2_eq_2)
  have d: "\<forall>(idx, arg, err) \<in> set ?rs.
      err = None \<and> idx < length three_fields \<and> Value arg \<noteq> None"
    by (simp add: three_fields_def)
  have e: "distinct (map fst ?rs)" by simp
  from DecodeArguments_complete [OF a b c d e, of "''open''"]
  obtain decoder' args' where
    1: "DecodeArguments readArg_stub ?d (replicate 3 empty_Argument) (int 2) three_fields ''open'' 7 =
        Return (decoder', args', [], None)"
    and 2: "length args' = length three_fields"
    and 3: "\<forall>(idx, arg, err) \<in> set ?rs. args' ! idx = arg"
    and 4: "\<forall>i < length three_fields. i \<notin> fst ` set ?rs \<longrightarrow>
           args' ! i = \<lparr>Argument.ArgMeta = DataField.ArgMeta (three_fields ! i),
                        Value = Zero (three_fields ! i)\<rparr>"
    by blast
  from 2 have l: "length args' = 3" by (simp add: three_fields_def)
  from 3 have n0: "args' ! 0 = ?a0" and n2: "args' ! 2 = ?a2" by simp_all
  from 4 [rule_format, of 1] have n1: "args' ! 1 = ?a1" by (simp add: three_fields_def)
  from l obtain x y z where xs: "args' = [x, y, z]"
    by (auto simp: numeral_3_eq_3 length_Suc_conv)
  with n0 n1 n2 have "args' = [?a0, ?a1, ?a2]" by simp
  with 1 show ?thesis by simp
qed

end
